theory Spec2Isabelle
  imports Main "HOL-Library.AList" "HOL-Library.Char_ord" "HOL-Library.List_Lexorder"
begin

section \<open>Static attributes of an element (view_builder)\<close>

text \<open>
  A JavaScript object used as a string dictionary (\<^verbatim>\<open>{[key: string]: string}\<close>) is an
  association list of its own properties, with distinct keys. \<^verbatim>\<open>Object.keys(obj).forEach\<close>
  walks the entries. The dictionaries that the code creates are plain objects (\<^verbatim>\<open>{}\<close>),
  which inherit from \<^verbatim>\<open>Object.prototype\<close>:

    \<^item> \<^verbatim>\<open>obj[k] = v\<close> overwrites the value of \<open>k\<close> in place or appends the entry, except
      for the key \<^verbatim>\<open>__proto__\<close>. For this key the assignment reaches the setter that
      \<^verbatim>\<open>Object.prototype\<close> defines, which ignores a string: no property is created.
    \<^item> \<^verbatim>\<open>obj[k]\<close> is \<open>map_of obj k\<close> for a key the object owns. For any other key it is
      what \<^verbatim>\<open>Object.prototype\<close> holds under this name: undefined, or an object that is
      no string for a name such as \<^verbatim>\<open>constructor\<close>, \<^verbatim>\<open>toString\<close> or \<^verbatim>\<open>__proto__\<close>.
\<close>

type_synonym StringMap = "(string \<times> string) list"

definition setProperty :: "string \<Rightarrow> string \<Rightarrow> StringMap \<Rightarrow> StringMap" where
  "setProperty key v obj = (if key = ''__proto__'' then obj else AList.update key v obj)"

record AttrAst =
  attr_name :: string
  attr_value :: string

datatype ViewEncapsulation = Emulated | Native | NoEncapsulation

text \<open>
  The fields of \<^verbatim>\<open>CompileDirectiveMetadata\<close> that the modelled code reads: of its type the
  name, \<^verbatim>\<open>isHost\<close> and \<^verbatim>\<open>moduleUrl\<close>; of its template the encapsulation, the URL and
  the number of \<^verbatim>\<open>ngContentSelectors\<close>; of its entry components the names; and whether
  \<^verbatim>\<open>isDefaultChangeDetectionStrategy\<close> holds of its change detection.
\<close>

record CompileDirectiveMetadata =
  type_name :: string
  isHost :: bool
  moduleUrl :: string
  isComponent :: bool
  hostAttributes :: StringMap
  encapsulation :: ViewEncapsulation
  templateUrl :: string
  ngContentSelectors :: nat
  entryComponents :: "string list"
  defaultChangeDetection :: bool

text \<open>A directive without host attributes, for examples.\<close>

definition plainDirective :: CompileDirectiveMetadata where
  "plainDirective =
     \<lparr>type_name = ''Dir'', isHost = False, moduleUrl = ''dir.ts'', isComponent = False,
      hostAttributes = [], encapsulation = Emulated, templateUrl = ''dir.ts'',
      ngContentSelectors = 0, entryComponents = [], defaultChangeDetection = True\<rparr>"

definition CLASS_ATTR :: string where
  "CLASS_ATTR = ''class''"

definition STYLE_ATTR :: string where
  "STYLE_ATTR = ''style''"

definition NG_CONTAINER_TAG :: string where
  "NG_CONTAINER_TAG = ''ng-container''"

text \<open>\<^verbatim>\<open>isPresent(x)\<close> of facade/lang: the value is neither null nor undefined.\<close>

definition isPresent :: "'a option \<Rightarrow> bool" where
  "isPresent x = (x \<noteq> None)"

definition mergeAttributeValue :: "string \<Rightarrow> string \<Rightarrow> string \<Rightarrow> string" where
  "mergeAttributeValue attrName attrValue1 attrValue2 =
     (if attrName = CLASS_ATTR \<or> attrName = STYLE_ATTR
      then attrValue1 @ '' '' @ attrValue2
      else attrValue2)"

definition readHtmlAttrs :: "AttrAst list \<Rightarrow> StringMap" where
  "readHtmlAttrs attrs =
     foldl (\<lambda>htmlAttrs ast. setProperty (attr_name ast) (attr_value ast) htmlAttrs) [] attrs"

text \<open>
  \<^verbatim>\<open>ListWrapper.sort\<close> of facade/collection is not among the sources.
  \<^verbatim>\<open>mapToKeyValueArray\<close> calls it on the entry array with no comparison function; the
  array is then sorted by its own \<^verbatim>\<open>sort()\<close>, which orders the elements by their strings,
  compared character code by character code. The string of an entry \<^verbatim>\<open>[name, value]\<close> is
  \<^verbatim>\<open>name,value\<close>. Two entries with different names have the same string only if a name
  contains a comma; the order in which the sort leaves such entries depends on the engine,
  and the model keeps them in the order of the array.
\<close>

definition entryString :: "string \<times> string \<Rightarrow> string" where
  "entryString entry = fst entry @ '','' @ snd entry"

definition ListWrapper_sort :: "(string \<times> string) list \<Rightarrow> (string \<times> string) list" where
  "ListWrapper_sort l = sort_key entryString l"

definition mapToKeyValueArray :: "StringMap \<Rightarrow> (string \<times> string) list" where
  "mapToKeyValueArray data =
     (let entryArray = foldl (\<lambda>entryArray (name, v). entryArray @ [(name, v)]) [] data
      in ListWrapper_sort entryArray)"

text \<open>
  The body of the inner \<^verbatim>\<open>forEach\<close> of \<^verbatim>\<open>_mergeHtmlAndDirectiveAttrs\<close>. Where
  \<^verbatim>\<open>result[name]\<close> reads a property that the result inherits, the previous value is
  present, the name is neither \<^verbatim>\<open>class\<close> nor \<^verbatim>\<open>style\<close>, and \<^verbatim>\<open>mergeAttributeValue\<close>
  returns the new value: the value that is assigned is the one for an absent previous
  value.
\<close>

definition mergeHostAttribute :: "StringMap \<Rightarrow> string \<times> string \<Rightarrow> StringMap" where
  "mergeHostAttribute result entry =
     (let name = fst entry; v = snd entry; prevValue = map_of result name
      in setProperty name
           (case prevValue of
              Some prev \<Rightarrow> mergeAttributeValue name prev v
            | None \<Rightarrow> v)
           result)"

definition mergeHtmlAndDirectiveAttrs ::
  "StringMap \<Rightarrow> CompileDirectiveMetadata list \<Rightarrow> (string \<times> string) list" where
  "mergeHtmlAndDirectiveAttrs declaredHtmlAttrs directives =
     (let result0 = foldl (\<lambda>result (key, v). setProperty key v result) [] declaredHtmlAttrs;
          result1 = foldl (\<lambda>result directiveMeta.
                             foldl mergeHostAttribute result (hostAttributes directiveMeta))
                      result0 directives
      in mapToKeyValueArray result1)"

subsection \<open>What the merge is meant to compute\<close>

fun joinSpace :: "string list \<Rightarrow> string" where
  "joinSpace [] = []"
| "joinSpace [v] = v"
| "joinSpace (v # w # vs) = v @ '' '' @ joinSpace (w # vs)"

text \<open>
  The static attributes of an element as a map from names, to be read with \<open>map_of\<close>:
  where a name occurs twice, its last attribute counts.
\<close>

definition elementAttrs :: "AttrAst list \<Rightarrow> StringMap" where
  "elementAttrs attrs = rev (map (\<lambda>ast. (attr_name ast, attr_value ast)) attrs)"

definition declaredValues ::
  "StringMap \<Rightarrow> CompileDirectiveMetadata list \<Rightarrow> string \<Rightarrow> string list" where
  "declaredValues htmlAttrs directives name =
     (case map_of htmlAttrs name of Some v \<Rightarrow> [v] | None \<Rightarrow> []) @
     concat (map (\<lambda>d. case map_of (hostAttributes d) name of Some v \<Rightarrow> [v] | None \<Rightarrow> [])
               directives)"

definition mergedValue ::
  "StringMap \<Rightarrow> CompileDirectiveMetadata list \<Rightarrow> string \<Rightarrow> string option" where
  "mergedValue htmlAttrs directives name =
     (let vs = declaredValues htmlAttrs directives name
      in if vs = [] then None
         else if name = ''class'' \<or> name = ''style'' then Some (joinSpace vs)
         else Some (last vs))"

definition wellFormedDirectives :: "CompileDirectiveMetadata list \<Rightarrow> bool" where
  "wellFormedDirectives directives =
     list_all (\<lambda>d. distinct (map fst (hostAttributes d))) directives"

text \<open>
  What one host attribute of the name \<open>name\<close> does to the value that the result holds
  for this name.
\<close>

definition mergeStep :: "string \<Rightarrow> string option \<Rightarrow> string \<Rightarrow> string option" where
  "mergeStep name acc v =
     Some (case acc of Some prev \<Rightarrow> mergeAttributeValue name prev v | None \<Rightarrow> v)"


section \<open>The output AST\<close>

text \<open>
  The builder emits expressions and statements of the intermediate output language
  (output_ast). Only the node kinds the modelled code constructs are kept; type annotations
  and statement modifiers are left out.
\<close>

datatype Literal = LitNull | LitString string | LitNat nat | LitBool bool

datatype Expr =
    ReadVarExpr string
  | ReadPropExpr Expr string
  | ReadKeyExpr Expr Expr
  | WriteVarExpr string Expr
  | WritePropExpr Expr string Expr
  | InvokeMethodExpr Expr string "Expr list"
  | InvokeFunctionExpr Expr "Expr list"
  | InstantiateExpr Expr "Expr list"
  | LiteralExpr Literal
  | LiteralArrayExpr "Expr list"
  | LiteralMapExpr "(string \<times> Expr) list"
  | ExternalExpr string
  | FunctionExpr "string list" "Stmt list"
  | NotExpr Expr
  | BinaryOperatorExpr string Expr Expr
and Stmt =
    ExpressionStatement Expr
  | DeclareVarStmt string Expr
  | DeclareFunctionStmt string "string list" "Stmt list"
  | ReturnStatement Expr
  | IfStmt Expr "Stmt list"
  | ClassStmt string Expr "string list" "(string \<times> Stmt list) list"
      "string option \<times> string list \<times> Stmt list"
      "(string option \<times> string list \<times> Stmt list) list"

text \<open>
  \<open>ClassStmt name parent fields getters constructorMethod methods\<close>: a field is its name, a
  getter its name and body, and a method its name (none for the constructor), the names
  of its parameters and its body.
\<close>

type_synonym ClassMethod = "string option \<times> string list \<times> Stmt list"

definition THIS_EXPR :: Expr where
  "THIS_EXPR = ReadVarExpr ''this''"

definition NULL_EXPR :: Expr where
  "NULL_EXPR = LiteralExpr LitNull"

definition parentRenderNodeVar :: Expr where
  "parentRenderNodeVar = ReadVarExpr ''parentRenderNode''"

definition rootSelectorVar :: Expr where
  "rootSelectorVar = ReadVarExpr ''rootSelector''"

text \<open>\<^verbatim>\<open>ViewProperties\<close> of constants.ts: members of the generated view class.\<close>

definition ViewProperties_renderer :: Expr where
  "ViewProperties_renderer = ReadPropExpr THIS_EXPR ''renderer''"

definition ViewProperties_projectableNodes :: Expr where
  "ViewProperties_projectableNodes = ReadPropExpr THIS_EXPR ''projectableNodes''"

definition ViewProperties_viewUtils :: Expr where
  "ViewProperties_viewUtils = ReadPropExpr THIS_EXPR ''viewUtils''"

text \<open>Decimal rendering of a number inside a template string.\<close>

function string_of_nat :: "nat \<Rightarrow> string" where
  "string_of_nat n =
     (if n < 10 then [''0123456789'' ! n]
      else string_of_nat (n div 10) @ [''0123456789'' ! (n mod 10)])"
  by pat_completeness auto
termination
  by (relation "measure id") auto

declare string_of_nat.simps [simp del]

section \<open>Views seen from the inside: local variables (compile_view)\<close>

datatype error = InternalError | TypeError

text \<open>
  \<^verbatim>\<open>getLocal\<close> and \<^verbatim>\<open>CompileQuery.addValue\<close> walk from a view outward, through
  \<^verbatim>\<open>declarationElement.view\<close>. For them a view is given with all that is reachable from
  it in that direction: \<open>CompileViewRef ident className locals declarationElement\<close>,
  where \<open>ident\<close> is the identity of the view object, and a declaration element is the
  null element or \<open>CompileElementRef view appElement\<close>. A declaration element exists before
  the view declared on it, so such a chain is finite.
\<close>

datatype CompileViewRef =
    CompileViewRef nat string "(string \<times> Expr) list" CompileElementRef
and CompileElementRef =
    NullElementRef
  | CompileElementRef CompileViewRef Expr

fun refId :: "CompileViewRef \<Rightarrow> nat" where
  "refId (CompileViewRef ident cn ls de) = ident"

fun refLocals :: "CompileViewRef \<Rightarrow> (string \<times> Expr) list" where
  "refLocals (CompileViewRef ident cn ls de) = ls"

text \<open>\<^verbatim>\<open>EventHandlerVars.event\<close> of constants.ts, the reserved variable of the event.\<close>

definition EventHandlerVars_event :: Expr where
  "EventHandlerVars_event = ReadVarExpr ''$event''"

text \<open>
  The loop of \<^verbatim>\<open>getLocal\<close>: the binding and the view that holds it. \<^verbatim>\<open>getPropertyInView\<close>
  of util is a parameter of \<open>getLocal\<close>; it may raise.
\<close>

fun findLocal :: "string \<Rightarrow> CompileViewRef \<Rightarrow> (Expr \<times> CompileViewRef) option" where
  "findLocal name (CompileViewRef ident cn ls de) =
     (case map_of ls name of
        Some result \<Rightarrow> Some (result, CompileViewRef ident cn ls de)
      | None \<Rightarrow>
          (case de of
             NullElementRef \<Rightarrow> None
           | CompileElementRef declView appEl \<Rightarrow> findLocal name declView))"

definition getLocal ::
  "(Expr \<Rightarrow> CompileViewRef \<Rightarrow> CompileViewRef \<Rightarrow> error + Expr) \<Rightarrow> CompileViewRef \<Rightarrow> string \<Rightarrow>
   error + Expr option" where
  "getLocal getPropertyInView this name =
     (if name = ''$event'' then Inr (Some EventHandlerVars_event)
      else
        (case findLocal name this of
           Some (result, currView) \<Rightarrow>
             (case getPropertyInView result this currView of
                Inl err \<Rightarrow> Inl err
              | Inr e \<Rightarrow> Inr (Some e))
         | None \<Rightarrow> Inr None))"

text \<open>The views from a view outward, the view itself first.\<close>

fun declarationChain :: "CompileViewRef \<Rightarrow> CompileViewRef list" where
  "declarationChain (CompileViewRef ident cn ls de) =
     CompileViewRef ident cn ls de #
     (case de of
        NullElementRef \<Rightarrow> []
      | CompileElementRef declView appEl \<Rightarrow> declarationChain declView)"

section \<open>Queries (compile_query)\<close>

record CompileQueryMetadata =
  first :: bool
  propertyName :: string

datatype ViewQueryValues =
    ViewQueryValues "CompileViewRef option" "QueryEntry list"
and QueryEntry =
    ExprEntry Expr
  | NestedEntry ViewQueryValues

record CompileQuery =
  meta :: CompileQueryMetadata
  queryList :: Expr
  ownerDirectiveExpression :: "Expr option"
  query_view :: CompileViewRef
  query_values :: ViewQueryValues

text \<open>
  The loop of \<^verbatim>\<open>addValue\<close> that walks from the originating view to the view of the
  query, putting each declaration element in front of the path. With an element the path
  keeps its \<^verbatim>\<open>embeddedView\<close>: the constructor of a view registers the view with its
  declaration element unless that is the null element, so this is the view the walk has
  just left, and undefined for the null element.
\<close>

fun walkToQueryView ::
  "nat \<Rightarrow> CompileViewRef \<Rightarrow> (CompileElementRef \<times> CompileViewRef option) list \<Rightarrow>
   (CompileElementRef \<times> CompileViewRef option) list" where
  "walkToQueryView owner (CompileViewRef ident cn ls de) elPath =
     (if ident = owner then elPath
      else
        (case de of
           NullElementRef \<Rightarrow> (NullElementRef, None) # elPath
         | CompileElementRef declView appEl \<Rightarrow>
             walkToQueryView owner declView
               ((CompileElementRef declView appEl, Some (CompileViewRef ident cn ls de)) # elPath)))"

text \<open>
  The \<^verbatim>\<open>forEach\<close> over the path that descends into the value tree, and the final push of
  the value. \<^verbatim>\<open>last.view === el.embeddedView\<close> compares the identities of two views.
\<close>

fun lastEntry :: "QueryEntry list \<Rightarrow> QueryEntry option" where
  "lastEntry [] = None"
| "lastEntry (e # es) = Some (last (e # es))"

fun insertValue ::
  "(CompileElementRef \<times> CompileViewRef option) list \<Rightarrow> Expr \<Rightarrow> ViewQueryValues \<Rightarrow>
   ViewQueryValues" where
  "insertValue [] v (ViewQueryValues vw vals) = ViewQueryValues vw (vals @ [ExprEntry v])"
| "insertValue ((el, embeddedView) # elPath) v (ViewQueryValues vw vals) =
     (case lastEntry vals of
        Some (NestedEntry (ViewQueryValues lastView lastVals)) \<Rightarrow>
          if map_option refId lastView = map_option refId embeddedView
          then ViewQueryValues vw (butlast vals @
                 [NestedEntry (insertValue elPath v (ViewQueryValues lastView lastVals))])
          else ViewQueryValues vw (vals @
                 [NestedEntry (insertValue elPath v (ViewQueryValues embeddedView []))])
      | other \<Rightarrow>
          ViewQueryValues vw (vals @
            [NestedEntry (insertValue elPath v (ViewQueryValues embeddedView []))]))"

text \<open>
  Modelled from the spec: \<^verbatim>\<open>CompileMethod\<close> of compile_method, ``an ordered, append-only
  statement accumulator'': a method is the list of its statements, and \<^verbatim>\<open>addStmt\<close> and
  \<^verbatim>\<open>addStmts\<close> append. \<^verbatim>\<open>addValue\<close> receives the dirty-parent-queries method of the
  originating view and returns it with the query.
\<close>

definition setDirtyStmt :: "Expr \<Rightarrow> Stmt" where
  "setDirtyStmt queryListForDirtyExpr =
     ExpressionStatement (InvokeMethodExpr queryListForDirtyExpr ''setDirty'' [])"

definition addValue ::
  "(Expr \<Rightarrow> CompileViewRef \<Rightarrow> CompileViewRef \<Rightarrow> error + Expr) \<Rightarrow> CompileQuery \<Rightarrow> Expr \<Rightarrow>
   CompileViewRef \<Rightarrow> Stmt list \<Rightarrow> error + CompileQuery \<times> Stmt list" where
  "addValue getPropertyInView this v originView dirtyParentQueriesMethod =
     (let elPath = walkToQueryView (refId (query_view this)) originView [] in
      case getPropertyInView (queryList this) originView (query_view this) of
        Inl err \<Rightarrow> Inl err
      | Inr queryListForDirtyExpr \<Rightarrow>
          Inr (this\<lparr>query_values := insertValue elPath v (query_values this)\<rparr>,
               if length elPath > 0
               then dirtyParentQueriesMethod @ [setDirtyStmt queryListForDirtyExpr]
               else dirtyParentQueriesMethod))"

fun isNested :: "QueryEntry \<Rightarrow> bool" where
  "isNested (NestedEntry n) = True"
| "isNested (ExprEntry e) = False"

fun entriesOf :: "ViewQueryValues \<Rightarrow> QueryEntry list" where
  "entriesOf (ViewQueryValues vw vals) = vals"

definition isStatic :: "CompileQuery \<Rightarrow> bool" where
  "isStatic this = (\<not> list_ex isNested (entriesOf (query_values this)))"

text \<open>
  \<^verbatim>\<open>replaceVarInExpression\<close> of output_ast is a parameter. The entries that
  \<^verbatim>\<open>createQueryValues\<close> maps to are expressions and none is an array, so
  \<^verbatim>\<open>ListWrapper.flatten\<close> returns them as they are. Reading a property of an undefined
  view, or calling a method on the undefined app element of the null element, raises.
\<close>

definition mapNestedViews ::
  "(string \<Rightarrow> Expr \<Rightarrow> Expr \<Rightarrow> Expr) \<Rightarrow> Expr \<Rightarrow> string \<Rightarrow> Expr list \<Rightarrow> Expr" where
  "mapNestedViews replaceVarInExpression declarationAppElement viewClassName expressions =
     (let adjustedExpressions =
            map (replaceVarInExpression ''this'' (ReadVarExpr ''nestedView'')) expressions
      in InvokeMethodExpr declarationAppElement ''mapNestedViews''
           [ReadVarExpr viewClassName,
            FunctionExpr [''nestedView''] [ReturnStatement (LiteralArrayExpr adjustedExpressions)]])"

fun createQueryValues ::
  "(string \<Rightarrow> Expr \<Rightarrow> Expr \<Rightarrow> Expr) \<Rightarrow> ViewQueryValues \<Rightarrow> error + Expr list"
and createEntryValues ::
  "(string \<Rightarrow> Expr \<Rightarrow> Expr \<Rightarrow> Expr) \<Rightarrow> QueryEntry list \<Rightarrow> error + Expr list"
and createEntryValue ::
  "(string \<Rightarrow> Expr \<Rightarrow> Expr \<Rightarrow> Expr) \<Rightarrow> QueryEntry \<Rightarrow> error + Expr"
where
  "createQueryValues rv (ViewQueryValues vw entries) = createEntryValues rv entries"
| "createEntryValues rv [] = Inr []"
| "createEntryValues rv (entry # entries) =
     (case createEntryValue rv entry of
        Inl err \<Rightarrow> Inl err
      | Inr x \<Rightarrow>
          (case createEntryValues rv entries of
             Inl err \<Rightarrow> Inl err
           | Inr xs \<Rightarrow> Inr (x # xs)))"
| "createEntryValue rv (ExprEntry e) = Inr e"
| "createEntryValue rv (NestedEntry nested) =
     (case createQueryValues rv nested of
        Inl err \<Rightarrow> Inl err
      | Inr xs \<Rightarrow>
          (case nested of
             ViewQueryValues None entries \<Rightarrow> Inl TypeError
           | ViewQueryValues (Some (CompileViewRef ident cn ls NullElementRef)) entries \<Rightarrow>
               Inl TypeError
           | ViewQueryValues (Some (CompileViewRef ident cn ls (CompileElementRef dv appEl)))
               entries \<Rightarrow> Inr (mapNestedViews rv appEl cn xs)))"

definition updateStmts :: "CompileQuery \<Rightarrow> Expr list \<Rightarrow> Stmt list" where
  "updateStmts this vals =
     [ExpressionStatement (InvokeMethodExpr (queryList this) ''reset'' [LiteralArrayExpr vals])] @
     (case ownerDirectiveExpression this of
        Some owner \<Rightarrow>
          [ExpressionStatement (WritePropExpr owner (propertyName (meta this))
             (if first (meta this) then ReadPropExpr (queryList this) ''first''
              else queryList this))]
      | None \<Rightarrow> []) @
     (if \<not> first (meta this)
      then [ExpressionStatement (InvokeMethodExpr (queryList this) ''notifyOnChanges'' [])]
      else [])"

definition afterChildren ::
  "(string \<Rightarrow> Expr \<Rightarrow> Expr \<Rightarrow> Expr) \<Rightarrow> CompileQuery \<Rightarrow> Stmt list \<Rightarrow> Stmt list \<Rightarrow>
   error + Stmt list \<times> Stmt list" where
  "afterChildren rv this targetStaticMethod targetDynamicMethod =
     (case createQueryValues rv (query_values this) of
        Inl err \<Rightarrow> Inl err
      | Inr vals \<Rightarrow>
          if first (meta this) \<and> isStatic this
          then Inr (targetStaticMethod @ updateStmts this vals, targetDynamicMethod)
          else Inr (targetStaticMethod,
                    targetDynamicMethod @
                      [IfStmt (ReadPropExpr (queryList this) ''dirty'') (updateStmts this vals)]))"

text \<open>A value tree that holds the subtree of a nested view, at any depth.\<close>

fun containsNestedView :: "ViewQueryValues \<Rightarrow> bool"
and entryContainsNestedView :: "QueryEntry \<Rightarrow> bool" where
  "containsNestedView (ViewQueryValues vw entries) = list_ex entryContainsNestedView entries"
| "entryContainsNestedView (ExprEntry e) = False"
| "entryContainsNestedView (NestedEntry n) = True"

fun entryExpr :: "QueryEntry \<Rightarrow> Expr list" where
  "entryExpr (ExprEntry e) = [e]"
| "entryExpr (NestedEntry n) = []"

text \<open>
  What the flattening of a value tree is to yield, in the words of the spec: an entry that
  is an expression stands for itself, and the subtree of a nested view becomes a call of
  \<^verbatim>\<open>mapNestedViews\<close> on the app element of the element that declares the nested view,
  with the class of the nested view and a function of one nested view instance that
  returns the values of the subtree, adjusted to that instance. \<open>viewsDeclared\<close> holds of a
  tree in which every nested subtree has a view that is declared on an element.
\<close>

fun subtreeDeclaration :: "ViewQueryValues \<Rightarrow> (Expr \<times> string) option" where
  "subtreeDeclaration
     (ViewQueryValues (Some (CompileViewRef ident cn ls (CompileElementRef dv appEl))) entries) =
     Some (appEl, cn)"
| "subtreeDeclaration (ViewQueryValues (Some (CompileViewRef ident cn ls NullElementRef)) entries) =
     None"
| "subtreeDeclaration (ViewQueryValues None entries) = None"

fun expandedValues ::
  "(string \<Rightarrow> Expr \<Rightarrow> Expr \<Rightarrow> Expr) \<Rightarrow> ViewQueryValues \<Rightarrow> Expr list"
and expandedEntries ::
  "(string \<Rightarrow> Expr \<Rightarrow> Expr \<Rightarrow> Expr) \<Rightarrow> QueryEntry list \<Rightarrow> Expr list"
and expandedEntry ::
  "(string \<Rightarrow> Expr \<Rightarrow> Expr \<Rightarrow> Expr) \<Rightarrow> QueryEntry \<Rightarrow> Expr"
where
  "expandedValues rv (ViewQueryValues vw entries) = expandedEntries rv entries"
| "expandedEntries rv [] = []"
| "expandedEntries rv (entry # entries) = expandedEntry rv entry # expandedEntries rv entries"
| "expandedEntry rv (ExprEntry e) = e"
| "expandedEntry rv (NestedEntry nested) =
     (case subtreeDeclaration nested of
        Some (appEl, cn) \<Rightarrow>
          InvokeMethodExpr appEl ''mapNestedViews''
            [ReadVarExpr cn,
             FunctionExpr [''nestedView'']
               [ReturnStatement (LiteralArrayExpr
                  (map (rv ''this'' (ReadVarExpr ''nestedView'')) (expandedValues rv nested)))]]
      | None \<Rightarrow> NULL_EXPR)"

fun viewsDeclared :: "ViewQueryValues \<Rightarrow> bool"
and entriesDeclared :: "QueryEntry list \<Rightarrow> bool"
and entryDeclared :: "QueryEntry \<Rightarrow> bool"
where
  "viewsDeclared (ViewQueryValues vw entries) = entriesDeclared entries"
| "entriesDeclared [] = True"
| "entriesDeclared (entry # entries) = (entryDeclared entry \<and> entriesDeclared entries)"
| "entryDeclared (ExprEntry e) = True"
| "entryDeclared (NestedEntry nested) =
     (subtreeDeclaration nested \<noteq> None \<and> viewsDeclared nested)"


section \<open>Template AST, compile nodes and views\<close>

datatype TemplateAst =
    TextAst string "nat option"
  | BoundTextAst "nat option"
  | ElementAst string "AttrAst list" "CompileDirectiveMetadata list" bool
      "TemplateAst list" "nat option"
  | EmbeddedTemplateAst "(string \<times> string) list" "CompileDirectiveMetadata list" bool
      "TemplateAst list" "nat option"
  | NgContentAst nat "nat option"
  | OtherAst

text \<open>
  \<open>TextAst value ngContentIndex\<close>, \<open>BoundTextAst ngContentIndex\<close>,
  \<open>ElementAst name attrs directives hasViewContainer children ngContentIndex\<close>,
  \<open>EmbeddedTemplateAst variables directives hasViewContainer children ngContentIndex\<close>
  (a variable is the pair of its name and its value) and \<open>NgContentAst index ngContentIndex\<close>.
  The directive list holds \<^verbatim>\<open>directiveAst.directive\<close> of each directive. \<open>OtherAst\<close> stands
  for the attribute, directive, event, reference, variable and property nodes, whose visit
  methods return null without doing anything.
\<close>

fun astName :: "TemplateAst \<Rightarrow> string option" where
  "astName (ElementAst name attrs directives hasVc children nci) = Some name"
| "astName ast = None"

fun astNgContentIndex :: "TemplateAst \<Rightarrow> nat option" where
  "astNgContentIndex (TextAst v nci) = nci"
| "astNgContentIndex (BoundTextAst nci) = nci"
| "astNgContentIndex (ElementAst name attrs directives hasVc children nci) = nci"
| "astNgContentIndex (EmbeddedTemplateAst variables directives hasVc children nci) = nci"
| "astNgContentIndex (NgContentAst index nci) = nci"
| "astNgContentIndex OtherAst = None"

text \<open>
  Absent collaborators whose results only flow into emitted expressions are parameters:
  the debug-context expression of \<^verbatim>\<open>CompileMethod.resetDebugInfoExpr\<close>; the app-element,
  injector and component-instance expressions of a \<^verbatim>\<open>CompileElement\<close> (by node index), its
  provider tokens and its reference tokens (by source AST; a token is given by its name);
  \<^verbatim>\<open>createFlatArray\<close>, \<^verbatim>\<open>getViewFactoryName\<close> and \<^verbatim>\<open>createDiTokenExpression\<close> of util;
  and \<^verbatim>\<open>replaceVarInExpression\<close> and \<^verbatim>\<open>findReadVarNames\<close> of output_ast.
\<close>

record Collaborators =
  resetDebugInfoExpr :: "nat \<Rightarrow> TemplateAst \<Rightarrow> Expr"
  newAppElement :: "nat \<Rightarrow> Expr"
  elementInjector :: "nat \<Rightarrow> Expr"
  getComponent :: "nat \<Rightarrow> Expr"
  createFlatArray :: "Expr list \<Rightarrow> Expr"
  getViewFactoryName :: "CompileDirectiveMetadata \<Rightarrow> nat \<Rightarrow> string"
  providerTokens :: "TemplateAst \<Rightarrow> Expr list"
  referenceTokens :: "TemplateAst \<Rightarrow> (string \<times> string option) list"
  createDiTokenExpression :: "string \<Rightarrow> Expr"
  replaceVarInExpression :: "string \<Rightarrow> Expr \<Rightarrow> Expr \<Rightarrow> Expr"
  findReadVarNames :: "Stmt list \<Rightarrow> string list"

text \<open>
  A \<^verbatim>\<open>CompileNode\<close> holds the fields its constructor receives, which are never reassigned.
  References to objects are modelled as follows. A view object is identified by the number
  \<open>viewId\<close> it received when it was constructed (the count of views constructed before it),
  so \<^verbatim>\<open>a.view === b.view\<close> compares these numbers. A node refers to its parent by value:
  the parent chain is finite and only these immutable fields are read through it.
  \<open>NullElement\<close> is \<^verbatim>\<open>CompileElement.createNull()\<close>, whose view is null. \<open>element\<close> is
  present for a \<^verbatim>\<open>CompileElement\<close> and absent for a plain \<^verbatim>\<open>CompileNode\<close>.
\<close>

record ElementPart =
  component :: "CompileDirectiveMetadata option"
  hasViewContainer :: bool
  hasEmbeddedView :: bool
  appElement :: Expr

datatype CompileNode =
    NullElement
  | CompileNode CompileNode nat nat Expr TemplateAst "ElementPart option"

text \<open>
  The arguments of \<open>CompileNode\<close> are the parent, the identity of the view, the node index,
  the render node expression, the source AST and the element part.
\<close>

fun isNull :: "CompileNode \<Rightarrow> bool" where
  "isNull NullElement = True"
| "isNull (CompileNode p v i r a e) = False"

fun viewOf :: "CompileNode \<Rightarrow> nat option" where
  "viewOf NullElement = None"
| "viewOf (CompileNode p v i r a e) = Some v"

fun nodeIndexOf :: "CompileNode \<Rightarrow> nat option" where
  "nodeIndexOf NullElement = None"
| "nodeIndexOf (CompileNode p v i r a e) = Some i"

fun componentOf :: "CompileNode \<Rightarrow> CompileDirectiveMetadata option" where
  "componentOf NullElement = None"
| "componentOf (CompileNode p v i r a e) =
     (case e of Some el \<Rightarrow> component el | None \<Rightarrow> None)"

datatype ViewType = HOST | COMPONENT | EMBEDDED

text \<open>
  The mutable fields of an element are kept in its view: \<open>contentNodesByNgContentIndex\<close>
  maps the node index of an element of the view and a content-projection index to the
  bucket of projected expressions. \<open>view_fields\<close> keeps the names of the class fields.
  \<open>genDebugInfo\<close> is \<^verbatim>\<open>genConfig.genDebugInfo\<close>, an animation is the pair of its name and
  its function expression, and \<open>viewQueries\<close> holds the values of the query map in the
  order of their insertion.

  Modelled from the spec: \<^verbatim>\<open>CompileMethod\<close> of compile_method, ``an ordered, append-only
  statement accumulator'': each method of the view is the list of its statements,
  \<^verbatim>\<open>addStmt\<close> appends, \<^verbatim>\<open>finish\<close> returns the list and \<^verbatim>\<open>isEmpty\<close> tests it.
\<close>

record CompileView =
  viewId :: nat
  view_component :: CompileDirectiveMetadata
  genDebugInfo :: bool
  styles :: Expr
  animations :: "(string \<times> Expr) list"
  viewIndex :: nat
  viewType :: ViewType
  declarationElement :: CompileNode
  templateVariableBindings :: "(string \<times> string) list"
  viewQueries :: "CompileQuery list list"
  locals :: "(string \<times> Expr) list"
  className :: string
  nodes :: "CompileNode list"
  rootNodesOrAppElements :: "Expr list"
  createMethod :: "Stmt list"
  animationBindingsMethod :: "Stmt list"
  injectorGetMethod :: "Stmt list"
  updateContentQueriesMethod :: "Stmt list"
  dirtyParentQueriesMethod :: "Stmt list"
  updateViewQueriesMethod :: "Stmt list"
  detectChangesInInputsMethod :: "Stmt list"
  detectChangesRenderPropertiesMethod :: "Stmt list"
  afterContentLifecycleCallbacksMethod :: "Stmt list"
  afterViewLifecycleCallbacksMethod :: "Stmt list"
  destroyMethod :: "Stmt list"
  detachMethod :: "Stmt list"
  eventHandlerMethods :: "ClassMethod list"
  view_fields :: "string list"
  getters :: "(string \<times> Stmt list) list"
  disposables :: "Expr list"
  subscriptions :: "Expr list"
  contentNodesByNgContentIndex :: "((nat \<times> nat) \<times> Expr list) list"
  literalArrayCount :: nat
  literalMapCount :: nat

text \<open>
  A view together with the embedded views that its template anchors own, each under the
  node index of its anchor, in the order the anchors were created.
\<close>

datatype ViewTree = ViewTree (treeView: CompileView) (treeEmbedded: "(nat \<times> ViewTree) list")

datatype Dependency =
    ViewFactoryDependency string string
  | ComponentFactoryDependency string string

text \<open>
  The visitor object. \<open>targetDependencies\<close> is the array shared with the caller.
  \<open>embeddedViews\<close> collects the finished embedded views of this view's anchors and
  \<open>nextViewId\<close> is the number of view objects constructed so far.
\<close>

record ViewBuilderVisitor =
  view :: CompileView
  targetDependencies :: "Dependency list"
  nestedViewCount :: nat
  embeddedViews :: "(nat \<times> ViewTree) list"
  nextViewId :: nat


section \<open>The view builder\<close>

definition isRootNode :: "ViewBuilderVisitor \<Rightarrow> CompileNode \<Rightarrow> bool" where
  "isRootNode this parent = (viewOf parent \<noteq> Some (viewId (view this)))"

fun isNgContainer :: "CompileNode \<Rightarrow> nat option \<Rightarrow> bool" where
  "isNgContainer NullElement vw = False"
| "isNgContainer (CompileNode p v i r a e) vw =
     (astName a = Some NG_CONTAINER_TAG \<and> Some v = vw)"

text \<open>
  The loops of \<^verbatim>\<open>_getOuterContainerOrSelf\<close> and \<^verbatim>\<open>_getOuterContainerParentOrSelf\<close>,
  with the view fixed before the loop. The builder passes nodes it has constructed to the
  first, so its equation for the null element is never reached.
\<close>

fun walkOuterContainer :: "nat option \<Rightarrow> CompileNode \<Rightarrow> CompileNode" where
  "walkOuterContainer vw NullElement = NullElement"
| "walkOuterContainer vw (CompileNode p v i r a e) =
     (if isNgContainer p vw then walkOuterContainer vw p else CompileNode p v i r a e)"

definition getOuterContainerOrSelf :: "CompileNode \<Rightarrow> CompileNode" where
  "getOuterContainerOrSelf node = walkOuterContainer (viewOf node) node"

fun walkOuterContainerParent :: "nat option \<Rightarrow> CompileNode \<Rightarrow> CompileNode" where
  "walkOuterContainerParent vw NullElement = NullElement"
| "walkOuterContainerParent vw (CompileNode p v i r a e) =
     (if isNgContainer (CompileNode p v i r a e) vw then walkOuterContainerParent vw p
      else CompileNode p v i r a e)"

definition getOuterContainerParentOrSelf :: "CompileNode \<Rightarrow> CompileNode" where
  "getOuterContainerParentOrSelf el = walkOuterContainerParent (viewOf el) el"

text \<open>
  Modelled from the spec: \<^verbatim>\<open>CompileElement.addContentNode\<close> of compile_element, over ``a
  map from content-projection index to the list of projected node references'': the
  expression is appended to the bucket of the element at that index.
\<close>

definition addContentNode :: "nat \<Rightarrow> nat \<Rightarrow> Expr \<Rightarrow> CompileView \<Rightarrow> CompileView" where
  "addContentNode elIndex ngContentIndex nodeExpr v =
     (let store = contentNodesByNgContentIndex v;
          bucket = (case map_of store (elIndex, ngContentIndex) of Some b \<Rightarrow> b | None \<Rightarrow> [])
      in v\<lparr>contentNodesByNgContentIndex :=
             AList.update (elIndex, ngContentIndex) (bucket @ [nodeExpr]) store\<rparr>)"

definition contentNodesOf :: "CompileView \<Rightarrow> nat \<Rightarrow> nat \<Rightarrow> Expr list list" where
  "contentNodesOf v elIndex n =
     map (\<lambda>k. case map_of (contentNodesByNgContentIndex v) (elIndex, k) of
                 Some b \<Rightarrow> b | None \<Rightarrow> [])
       [0..<n]"

text \<open>
  The expression that \<^verbatim>\<open>_addRootNodeAndProject\<close> registers for a node:
  \<^verbatim>\<open>vcAppEl || node.renderNode\<close>.
\<close>

fun registeredUnit :: "CompileNode \<Rightarrow> Expr" where
  "registeredUnit NullElement = NULL_EXPR"
| "registeredUnit (CompileNode p v i r a e) =
     (case e of
        Some el \<Rightarrow> if hasViewContainer el then appElement el else r
      | None \<Rightarrow> r)"

definition addRootNodeAndProject ::
  "CompileNode \<Rightarrow> ViewBuilderVisitor \<Rightarrow> ViewBuilderVisitor" where
  "addRootNodeAndProject node this =
     (case getOuterContainerOrSelf node of
        NullElement \<Rightarrow> this
      | CompileNode parent pv pidx pr projectedAst pe \<Rightarrow>
          (let ngContentIndex = astNgContentIndex projectedAst in
           if isRootNode this parent then
             (if viewType (view this) \<noteq> COMPONENT
              then this\<lparr>view := (view this)\<lparr>rootNodesOrAppElements :=
                     rootNodesOrAppElements (view this) @ [registeredUnit node]\<rparr>\<rparr>
              else this)
           else
             (case (componentOf parent, ngContentIndex, nodeIndexOf parent) of
                (Some compMeta, Some nci, Some parentIndex) \<Rightarrow>
                  this\<lparr>view := addContentNode parentIndex nci (registeredUnit node) (view this)\<rparr>
              | other \<Rightarrow> this)))"

definition getParentRenderNode :: "ViewBuilderVisitor \<Rightarrow> CompileNode \<Rightarrow> Expr" where
  "getParentRenderNode this parent0 =
     (let parent = getOuterContainerParentOrSelf parent0 in
      if isRootNode this parent then
        (if viewType (view this) = COMPONENT then parentRenderNodeVar else NULL_EXPR)
      else
        (case parent of
           NullElement \<Rightarrow> NULL_EXPR
         | CompileNode p v i r a e \<Rightarrow>
             (case componentOf parent of
                Some compMeta \<Rightarrow> if encapsulation compMeta \<noteq> Native then NULL_EXPR else r
              | None \<Rightarrow> r)))"

definition addStmt :: "Stmt \<Rightarrow> CompileView \<Rightarrow> CompileView" where
  "addStmt stmt v = v\<lparr>createMethod := createMethod v @ [stmt]\<rparr>"

definition visitTextImpl ::
  "Collaborators \<Rightarrow> TemplateAst \<Rightarrow> string \<Rightarrow> CompileNode \<Rightarrow> ViewBuilderVisitor \<Rightarrow>
   ViewBuilderVisitor" where
  "visitTextImpl c ast txt parent this =
     (let v = view this;
          fieldName = ''_text_'' @ string_of_nat (length (nodes v));
          v1 = v\<lparr>view_fields := view_fields v @ [fieldName]\<rparr>;
          renderNode = ReadPropExpr THIS_EXPR fieldName;
          compileNode = CompileNode parent (viewId v1) (length (nodes v1)) renderNode ast None;
          createRenderNode = ExpressionStatement (WritePropExpr THIS_EXPR fieldName
            (InvokeMethodExpr ViewProperties_renderer ''createText''
               [getParentRenderNode this parent, LiteralExpr (LitString txt),
                resetDebugInfoExpr c (length (nodes v1)) ast]));
          v2 = v1\<lparr>nodes := nodes v1 @ [compileNode]\<rparr>;
          v3 = addStmt createRenderNode v2
      in addRootNodeAndProject compileNode (this\<lparr>view := v3\<rparr>))"

text \<open>
  \<^verbatim>\<open>visitNgContent\<close>. Its first statement resets the debug information of the create
  method (\<^verbatim>\<open>CompileMethod.resetDebugInfo\<close> of compile_method); a statement that this
  puts into the method when debug information is generated is not part of the model.
\<close>

definition visitNgContent ::
  "nat \<Rightarrow> nat option \<Rightarrow> CompileNode \<Rightarrow> ViewBuilderVisitor \<Rightarrow> ViewBuilderVisitor" where
  "visitNgContent index ngContentIndex parent this =
     (let parentRenderNode = getParentRenderNode this parent;
          nodesExpression = ReadKeyExpr ViewProperties_projectableNodes (LiteralExpr (LitNat index))
      in if parentRenderNode \<noteq> NULL_EXPR then
           this\<lparr>view := addStmt (ExpressionStatement
             (InvokeMethodExpr ViewProperties_renderer ''projectNodes''
                [parentRenderNode,
                 InvokeFunctionExpr (ExternalExpr ''flattenNestedViewRenderNodes'')
                   [nodesExpression]])) (view this)\<rparr>
         else if isRootNode this parent then
           (if viewType (view this) \<noteq> COMPONENT
            then this\<lparr>view := (view this)\<lparr>rootNodesOrAppElements :=
                   rootNodesOrAppElements (view this) @ [nodesExpression]\<rparr>\<rparr>
            else this)
         else
           (case (componentOf parent, ngContentIndex, nodeIndexOf parent) of
              (Some compMeta, Some nci, Some parentIndex) \<Rightarrow>
                this\<lparr>view := addContentNode parentIndex nci nodesExpression (view this)\<rparr>
            | other \<Rightarrow> this))"

text \<open>The loop of \<^verbatim>\<open>visitElement\<close> over the merged attributes.\<close>

definition setElementAttributeStmt :: "Expr \<Rightarrow> string \<times> string \<Rightarrow> Stmt" where
  "setElementAttributeStmt renderNode entry =
     ExpressionStatement (InvokeMethodExpr ViewProperties_renderer ''setElementAttribute''
       [renderNode, LiteralExpr (LitString (fst entry)), LiteralExpr (LitString (snd entry))])"

definition elementAttributeStmts ::
  "string \<Rightarrow> Expr \<Rightarrow> (string \<times> string) list \<Rightarrow> Stmt list" where
  "elementAttributeStmts name renderNode attrNameAndValues =
     foldl (\<lambda>stmts entry.
              if name \<noteq> NG_CONTAINER_TAG then stmts @ [setElementAttributeStmt renderNode entry]
              else stmts)
       [] attrNameAndValues"

text \<open>
  \<^verbatim>\<open>visitElement\<close> up to the visit of the children. The constructor of \<^verbatim>\<open>CompileElement\<close>
  and its methods \<^verbatim>\<open>createComponentFactoryResolver\<close>, \<^verbatim>\<open>setComponentView\<close>,
  \<^verbatim>\<open>beforeChildren\<close> and \<^verbatim>\<open>afterChildren\<close> belong to compile_element, which wires providers
  and queries; the spec has a node ``never mutated afterward except to record the owned
  embedded view or a resolved component-view reference'', and the statements these methods
  emit are not part of the model.
\<close>

definition visitElementStart ::
  "Collaborators \<Rightarrow> string \<Rightarrow> AttrAst list \<Rightarrow> CompileDirectiveMetadata list \<Rightarrow> bool \<Rightarrow>
   TemplateAst list \<Rightarrow> nat option \<Rightarrow> CompileNode \<Rightarrow> ViewBuilderVisitor \<Rightarrow>
   CompileNode \<times> Expr option \<times> ViewBuilderVisitor" where
  "visitElementStart c name attrs directives hasVc children nci parent this =
     (let ast = ElementAst name attrs directives hasVc children nci;
          v = view this;
          nodeIndex = length (nodes v);
          debugContextExpr = resetDebugInfoExpr c nodeIndex ast;
          createRenderNodeExpr =
            (if nodeIndex = 0 \<and> viewType v = HOST then
               InvokeMethodExpr THIS_EXPR ''selectOrCreateHostElement''
                 [LiteralExpr (LitString name), rootSelectorVar, debugContextExpr]
             else if name = NG_CONTAINER_TAG then
               InvokeMethodExpr ViewProperties_renderer ''createTemplateAnchor''
                 [getParentRenderNode this parent, debugContextExpr]
             else
               InvokeMethodExpr ViewProperties_renderer ''createElement''
                 [getParentRenderNode this parent, LiteralExpr (LitString name),
                  debugContextExpr]);
          fieldName = ''_el_'' @ string_of_nat nodeIndex;
          v1 = v\<lparr>view_fields := view_fields v @ [fieldName]\<rparr>;
          v2 = addStmt (ExpressionStatement
                 (WritePropExpr THIS_EXPR fieldName createRenderNodeExpr)) v1;
          renderNode = ReadPropExpr THIS_EXPR fieldName;
          compMeta = find isComponent directives;
          htmlAttrs = readHtmlAttrs attrs;
          attrNameAndValues = mergeHtmlAndDirectiveAttrs htmlAttrs directives;
          v3 = v2\<lparr>createMethod :=
                 createMethod v2 @ elementAttributeStmts name renderNode attrNameAndValues\<rparr>;
          compileElement = CompileNode parent (viewId v3) nodeIndex renderNode ast
            (Some \<lparr>component = compMeta, hasViewContainer = hasVc, hasEmbeddedView = False,
                   appElement = newAppElement c nodeIndex\<rparr>);
          v4 = v3\<lparr>nodes := nodes v3 @ [compileElement]\<rparr>;
          this4 = this\<lparr>view := v4\<rparr>
      in case compMeta of
           None \<Rightarrow> (compileElement, None, addRootNodeAndProject compileElement this4)
         | Some cmp \<Rightarrow>
             (let nestedComponentIdentifier = getViewFactoryName c cmp 0;
                  deps1 = targetDependencies this4 @
                    [ViewFactoryDependency (type_name cmp) nestedComponentIdentifier];
                  deps2 = foldl (\<lambda>deps entryComponent.
                            deps @ [ComponentFactoryDependency entryComponent entryComponent])
                          deps1 (entryComponents cmp);
                  compViewName = ''compView_'' @ string_of_nat nodeIndex;
                  v5 = addStmt (DeclareVarStmt compViewName
                         (InvokeFunctionExpr (ExternalExpr nestedComponentIdentifier)
                            [ViewProperties_viewUtils, elementInjector c nodeIndex,
                             newAppElement c nodeIndex])) v4;
                  this5 = this4\<lparr>view := v5, targetDependencies := deps2\<rparr>
              in (compileElement, Some (ReadVarExpr compViewName),
                  addRootNodeAndProject compileElement this5)))"

text \<open>\<^verbatim>\<open>visitElement\<close> after the visit of the children.\<close>

definition visitElementEnd ::
  "Collaborators \<Rightarrow> CompileNode \<Rightarrow> Expr option \<Rightarrow> ViewBuilderVisitor \<Rightarrow> ViewBuilderVisitor" where
  "visitElementEnd c compileElement compViewExpr this =
     (case (compViewExpr, nodeIndexOf compileElement, componentOf compileElement) of
        (Some cv, Some nodeIndex, Some cmp) \<Rightarrow>
          (let v = view this;
               codeGenContentNodes =
                 (if isHost (view_component v) then ViewProperties_projectableNodes
                  else LiteralArrayExpr
                         (map (createFlatArray c)
                            (contentNodesOf v nodeIndex (ngContentSelectors cmp))))
           in this\<lparr>view := addStmt (ExpressionStatement
                (InvokeMethodExpr cv ''create''
                   [getComponent c nodeIndex, codeGenContentNodes, NULL_EXPR])) v\<rparr>)
      | other \<Rightarrow> this)"

definition IMPLICIT_TEMPLATE_VAR :: string where
  "IMPLICIT_TEMPLATE_VAR = ''$implicit''"

definition getViewType :: "CompileDirectiveMetadata \<Rightarrow> nat \<Rightarrow> ViewType" where
  "getViewType compMeta embeddedTemplateIndex =
     (if embeddedTemplateIndex > 0 then EMBEDDED
      else if isHost compMeta then HOST
      else COMPONENT)"

text \<open>
  The constructor of \<^verbatim>\<open>CompileView\<close>; \<open>ident\<close> is the identity of the new object. The view
  queries, which the constructor creates for a view of type COMPONENT only, are not part of
  the model: the builder constructs views with a positive index, whose type is EMBEDDED.
\<close>

definition newCompileView ::
  "CompileDirectiveMetadata \<Rightarrow> bool \<Rightarrow> Expr \<Rightarrow> (string \<times> Expr) list \<Rightarrow> nat \<Rightarrow>
   CompileNode \<Rightarrow> (string \<times> string) list \<Rightarrow> nat \<Rightarrow> CompileView" where
  "newCompileView compMeta genDebug styleExpr anims vIndex declEl bindings ident =
     \<lparr>viewId = ident,
      view_component = compMeta,
      genDebugInfo = genDebug,
      styles = styleExpr,
      animations = anims,
      viewIndex = vIndex,
      viewType = getViewType compMeta vIndex,
      declarationElement = declEl,
      templateVariableBindings = bindings,
      viewQueries = [],
      locals = foldl (\<lambda>ls entry. AList.update (snd entry)
                 (ReadPropExpr (ReadPropExpr THIS_EXPR ''context'') (fst entry)) ls) [] bindings,
      className = ''_View_'' @ type_name compMeta @ string_of_nat vIndex,
      nodes = [],
      rootNodesOrAppElements = [],
      createMethod = [],
      animationBindingsMethod = [],
      injectorGetMethod = [],
      updateContentQueriesMethod = [],
      dirtyParentQueriesMethod = [],
      updateViewQueriesMethod = [],
      detectChangesInInputsMethod = [],
      detectChangesRenderPropertiesMethod = [],
      afterContentLifecycleCallbacksMethod = [],
      afterViewLifecycleCallbacksMethod = [],
      destroyMethod = [],
      detachMethod = [],
      eventHandlerMethods = [],
      view_fields = [],
      getters = [],
      disposables = [],
      subscriptions = [],
      contentNodesByNgContentIndex = [],
      literalArrayCount = 0,
      literalMapCount = 0\<rparr>"

text \<open>
  \<^verbatim>\<open>visitEmbeddedTemplate\<close> up to the construction of the embedded view: the anchor, the
  incremented count and the new view.
\<close>

definition visitEmbeddedTemplateStart ::
  "Collaborators \<Rightarrow> (string \<times> string) list \<Rightarrow> CompileDirectiveMetadata list \<Rightarrow> bool \<Rightarrow>
   TemplateAst list \<Rightarrow> nat option \<Rightarrow> CompileNode \<Rightarrow> ViewBuilderVisitor \<Rightarrow>
   CompileNode \<times> CompileView \<times> ViewBuilderVisitor" where
  "visitEmbeddedTemplateStart c variables directives hasVc children nci parent this =
     (let ast = EmbeddedTemplateAst variables directives hasVc children nci;
          v = view this;
          nodeIndex = length (nodes v);
          fieldName = ''_anchor_'' @ string_of_nat nodeIndex;
          v1 = v\<lparr>view_fields := view_fields v @ [fieldName]\<rparr>;
          v2 = addStmt (ExpressionStatement (WritePropExpr THIS_EXPR fieldName
                 (InvokeMethodExpr ViewProperties_renderer ''createTemplateAnchor''
                    [getParentRenderNode this parent, resetDebugInfoExpr c nodeIndex ast]))) v1;
          renderNode = ReadPropExpr THIS_EXPR fieldName;
          bindings = map (\<lambda>(varName, varValue).
                       (if length varValue > 0 then varValue else IMPLICIT_TEMPLATE_VAR, varName))
                     variables;
          compileElement = CompileNode parent (viewId v2) nodeIndex renderNode ast
            (Some \<lparr>component = None, hasViewContainer = hasVc, hasEmbeddedView = True,
                   appElement = newAppElement c nodeIndex\<rparr>);
          v3 = v2\<lparr>nodes := nodes v2 @ [compileElement]\<rparr>;
          this3 = this\<lparr>view := v3, nestedViewCount := nestedViewCount this + 1\<rparr>;
          embeddedView = newCompileView (view_component v3) (genDebugInfo v3) NULL_EXPR
            (animations v3) (viewIndex v3 + nestedViewCount this3) compileElement bindings
            (nextViewId this3)
      in (compileElement, embeddedView, this3\<lparr>nextViewId := nextViewId this3 + 1\<rparr>))"

text \<open>
  \<^verbatim>\<open>visitEmbeddedTemplate\<close> after \<^verbatim>\<open>buildView\<close> has returned: the result is the built
  embedded view, its count of nested views, the dependency array and the number of views
  constructed.
\<close>

definition visitEmbeddedTemplateEnd ::
  "CompileNode \<Rightarrow> ViewTree \<times> nat \<times> Dependency list \<times> nat \<Rightarrow> ViewBuilderVisitor \<Rightarrow>
   ViewBuilderVisitor" where
  "visitEmbeddedTemplateEnd compileElement built this =
     (case built of
        (tree, nested, deps, nextId) \<Rightarrow>
          addRootNodeAndProject compileElement
            (this\<lparr>nestedViewCount := nestedViewCount this + nested,
                  targetDependencies := deps,
                  nextViewId := nextId,
                  embeddedViews := embeddedViews this @
                    [(case nodeIndexOf compileElement of Some i \<Rightarrow> i | None \<Rightarrow> 0, tree)]\<rparr>))"

fun declarationParent :: "CompileNode \<Rightarrow> CompileNode" where
  "declarationParent NullElement = NullElement"
| "declarationParent (CompileNode p v i r a e) = p"

fun visit ::
  "Collaborators \<Rightarrow> TemplateAst \<Rightarrow> CompileNode \<Rightarrow> ViewBuilderVisitor \<Rightarrow> ViewBuilderVisitor"
and templateVisitAll ::
  "Collaborators \<Rightarrow> TemplateAst list \<Rightarrow> CompileNode \<Rightarrow> ViewBuilderVisitor \<Rightarrow>
   ViewBuilderVisitor"
and buildView ::
  "Collaborators \<Rightarrow> CompileView \<Rightarrow> TemplateAst list \<Rightarrow> Dependency list \<Rightarrow> nat \<Rightarrow>
   ViewTree \<times> nat \<times> Dependency list \<times> nat"
where
  "visit c (TextAst txt nci) parent this = visitTextImpl c (TextAst txt nci) txt parent this"
| "visit c (BoundTextAst nci) parent this = visitTextImpl c (BoundTextAst nci) [] parent this"
| "visit c (NgContentAst index nci) parent this = visitNgContent index nci parent this"
| "visit c OtherAst parent this = this"
| "visit c (ElementAst name attrs directives hasVc children nci) parent this =
     (case visitElementStart c name attrs directives hasVc children nci parent this of
        (compileElement, compViewExpr, this1) \<Rightarrow>
          visitElementEnd c compileElement compViewExpr
            (templateVisitAll c children compileElement this1))"
| "visit c (EmbeddedTemplateAst variables directives hasVc children nci) parent this =
     (case visitEmbeddedTemplateStart c variables directives hasVc children nci parent this of
        (compileElement, embeddedView, this1) \<Rightarrow>
          visitEmbeddedTemplateEnd compileElement
            (buildView c embeddedView children (targetDependencies this1) (nextViewId this1))
            this1)"
| "templateVisitAll c [] context this = this"
| "templateVisitAll c (ast # asts) context this =
     templateVisitAll c asts context (visit c ast context this)"
| "buildView c v template deps nextId =
     (let builderVisitor = \<lparr>view = v, targetDependencies = deps, nestedViewCount = 0,
                             embeddedViews = [], nextViewId = nextId\<rparr>;
          finished = templateVisitAll c template
            (declarationParent (declarationElement v)) builderVisitor
      in (ViewTree (view finished) (embeddedViews finished), nestedViewCount finished,
          targetDependencies finished, nextViewId finished))"


section \<open>Literal arrays and maps (compile_view)\<close>

text \<open>
  \<^verbatim>\<open>createLiteralArray\<close> and \<^verbatim>\<open>createLiteralMap\<close>, on the view record of the builder.
  \<^verbatim>\<open>createPureProxy\<close> of util is a parameter; it receives the view after the counter has
  been incremented, and it may raise.
\<close>

definition proxyParamNames :: "nat \<Rightarrow> string list" where
  "proxyParamNames n = map (\<lambda>i. ''p'' @ string_of_nat i) [0 ..< n]"

definition createLiteralArray ::
  "(Expr \<Rightarrow> nat \<Rightarrow> Expr \<Rightarrow> CompileView \<Rightarrow> error + CompileView) \<Rightarrow> Expr list \<Rightarrow> CompileView \<Rightarrow>
   error + Expr \<times> CompileView" where
  "createLiteralArray createPureProxy vals this =
     (if length vals = 0 then Inr (ExternalExpr ''EMPTY_ARRAY'', this)
      else
        (let proxyExpr = ReadPropExpr THIS_EXPR (''_arr_'' @ string_of_nat (literalArrayCount this));
             this1 = this\<lparr>literalArrayCount := literalArrayCount this + 1\<rparr>;
             proxyParams = proxyParamNames (length vals);
             proxyReturnEntries = map ReadVarExpr (proxyParamNames (length vals))
         in case createPureProxy
                   (FunctionExpr proxyParams [ReturnStatement (LiteralArrayExpr proxyReturnEntries)])
                   (length vals) proxyExpr this1 of
              Inl err \<Rightarrow> Inl err
            | Inr this2 \<Rightarrow> Inr (InvokeFunctionExpr proxyExpr vals, this2)))"

definition createLiteralMap ::
  "(Expr \<Rightarrow> nat \<Rightarrow> Expr \<Rightarrow> CompileView \<Rightarrow> error + CompileView) \<Rightarrow> (string \<times> Expr) list \<Rightarrow>
   CompileView \<Rightarrow> error + Expr \<times> CompileView" where
  "createLiteralMap createPureProxy entries this =
     (if length entries = 0 then Inr (ExternalExpr ''EMPTY_MAP'', this)
      else
        (let proxyExpr = ReadPropExpr THIS_EXPR (''_map_'' @ string_of_nat (literalMapCount this));
             this1 = this\<lparr>literalMapCount := literalMapCount this + 1\<rparr>;
             proxyParams = proxyParamNames (length entries);
             proxyReturnEntries = map2 (\<lambda>entry paramName. (fst entry, ReadVarExpr paramName))
                                    entries (proxyParamNames (length entries));
             vals = map snd entries
         in case createPureProxy
                   (FunctionExpr proxyParams [ReturnStatement (LiteralMapExpr proxyReturnEntries)])
                   (length entries) proxyExpr this1 of
              Inl err \<Rightarrow> Inl err
            | Inr this2 \<Rightarrow> Inr (InvokeFunctionExpr proxyExpr vals, this2)))"

section \<open>The views of a compilation and their numbering\<close>

text \<open>
  The views of a tree in the order \<^verbatim>\<open>finishView\<close> walks them: a view, then the embedded
  views of its nodes in node order.
\<close>

fun allViews :: "ViewTree \<Rightarrow> CompileView list" where
  "allViews (ViewTree v es) = v # concat (map (\<lambda>e. allViews (snd e)) es)"

fun countEmbedded :: "TemplateAst \<Rightarrow> nat"
and countEmbeddedAll :: "TemplateAst list \<Rightarrow> nat" where
  "countEmbedded (ElementAst name attrs directives hasVc children nci) = countEmbeddedAll children"
| "countEmbedded (EmbeddedTemplateAst variables directives hasVc children nci) =
     1 + countEmbeddedAll children"
| "countEmbedded (TextAst txt nci) = 0"
| "countEmbedded (BoundTextAst nci) = 0"
| "countEmbedded (NgContentAst index nci) = 0"
| "countEmbedded OtherAst = 0"
| "countEmbeddedAll [] = 0"
| "countEmbeddedAll (ast # asts) = countEmbedded ast + countEmbeddedAll asts"

definition subViews :: "ViewBuilderVisitor \<Rightarrow> CompileView list" where
  "subViews this = concat (map (\<lambda>e. allViews (snd e)) (embeddedViews this))"

text \<open>What a step of the visitor leaves alone, for the proofs below.\<close>

definition sameFrame :: "ViewBuilderVisitor \<Rightarrow> ViewBuilderVisitor \<Rightarrow> bool" where
  "sameFrame this this' =
     (viewId (view this') = viewId (view this) \<and>
      viewIndex (view this') = viewIndex (view this) \<and>
      viewType (view this') = viewType (view this) \<and>
      view_component (view this') = view_component (view this) \<and>
      declarationElement (view this') = declarationElement (view this) \<and>
      nestedViewCount this' = nestedViewCount this \<and>
      embeddedViews this' = embeddedViews this \<and>
      nextViewId this' = nextViewId this)"

definition sameView :: "ViewBuilderVisitor \<Rightarrow> ViewBuilderVisitor \<Rightarrow> bool" where
  "sameView this this' =
     (viewId (view this') = viewId (view this) \<and>
      viewIndex (view this') = viewIndex (view this) \<and>
      viewType (view this') = viewType (view this) \<and>
      view_component (view this') = view_component (view this) \<and>
      declarationElement (view this') = declarationElement (view this))"


definition numbered :: "ViewBuilderVisitor \<Rightarrow> bool" where
  "numbered this =
     (map viewIndex (subViews this) =
        [viewIndex (view this) + 1 ..< viewIndex (view this) + 1 + nestedViewCount this] \<and>
      map viewId (subViews this) =
        [viewId (view this) + 1 ..< viewId (view this) + 1 + nestedViewCount this] \<and>
      nextViewId this = viewId (view this) + 1 + nestedViewCount this)"

definition builtNumbered ::
  "CompileView \<Rightarrow> TemplateAst list \<Rightarrow> ViewTree \<times> nat \<times> Dependency list \<times> nat \<Rightarrow> bool" where
  "builtNumbered v template built =
     (case built of
        (tree, nested, deps, nextId) \<Rightarrow>
          nested = countEmbeddedAll template \<and>
          map viewIndex (allViews tree) = [viewIndex v ..< viewIndex v + 1 + nested] \<and>
          map viewId (allViews tree) = [viewId v ..< viewId v + 1 + nested] \<and>
          nextId = viewId v + 1 + nested)"


section \<open>Node indices\<close>

text \<open>
  \<open>nodesIndexed\<close>: the node at position \<open>k\<close> of the node list of a view carries the index
  \<open>k\<close>. \<open>viewNodeAsts\<close> lists, in the order of the visit, the template nodes for which
  the visitor of a view creates a node of that view: the children of an embedded template
  belong to the embedded view.
\<close>

fun sourceAstOf :: "CompileNode \<Rightarrow> TemplateAst option" where
  "sourceAstOf NullElement = None"
| "sourceAstOf (CompileNode p v i r a e) = Some a"

definition nodesIndexed :: "CompileView \<Rightarrow> bool" where
  "nodesIndexed v = (map nodeIndexOf (nodes v) = map Some [0 ..< length (nodes v)])"

fun viewNodeAsts :: "TemplateAst \<Rightarrow> TemplateAst list"
and viewNodeAstsAll :: "TemplateAst list \<Rightarrow> TemplateAst list" where
  "viewNodeAsts (TextAst txt nci) = [TextAst txt nci]"
| "viewNodeAsts (BoundTextAst nci) = [BoundTextAst nci]"
| "viewNodeAsts (NgContentAst index nci) = []"
| "viewNodeAsts OtherAst = []"
| "viewNodeAsts (ElementAst name attrs directives hasVc children nci) =
     ElementAst name attrs directives hasVc children nci # viewNodeAstsAll children"
| "viewNodeAsts (EmbeddedTemplateAst variables directives hasVc children nci) =
     [EmbeddedTemplateAst variables directives hasVc children nci]"
| "viewNodeAstsAll [] = []"
| "viewNodeAstsAll (ast # asts) = viewNodeAsts ast @ viewNodeAstsAll asts"

definition indexedVisitor :: "ViewBuilderVisitor \<Rightarrow> bool" where
  "indexedVisitor this = (nodesIndexed (view this) \<and> list_all nodesIndexed (subViews this))"

definition builtIndexed ::
  "CompileView \<Rightarrow> TemplateAst list \<Rightarrow> ViewTree \<times> nat \<times> Dependency list \<times> nat \<Rightarrow> bool" where
  "builtIndexed v template built =
     (case built of
        (tree, rest) \<Rightarrow>
          list_all nodesIndexed (allViews tree) \<and>
          map sourceAstOf (nodes (treeView tree)) =
            map sourceAstOf (nodes v) @ map Some (viewNodeAstsAll template))"


section \<open>Registration of root and projected nodes\<close>

text \<open>
  \<open>registerAt parent ngContentIndex unit\<close> is the registration decision in the words of the
  spec: the unit is pushed to the root nodes when the parent lies outside the view and the
  view is not the own view of a component, and otherwise added to the bucket of the parent
  when the parent has a component and the index is present.
\<close>

definition registerAt ::
  "CompileNode \<Rightarrow> nat option \<Rightarrow> Expr \<Rightarrow> ViewBuilderVisitor \<Rightarrow> ViewBuilderVisitor" where
  "registerAt parent ngContentIndex unit this =
     (if viewOf parent \<noteq> Some (viewId (view this)) then
        (if viewType (view this) \<noteq> COMPONENT
         then this\<lparr>view := (view this)\<lparr>rootNodesOrAppElements :=
                rootNodesOrAppElements (view this) @ [unit]\<rparr>\<rparr>
         else this)
      else
        (case (componentOf parent, ngContentIndex, nodeIndexOf parent) of
           (Some cmpt, Some nci, Some parentIndex) \<Rightarrow>
             this\<lparr>view := addContentNode parentIndex nci unit (view this)\<rparr>
         | other \<Rightarrow> this))"

text \<open>
  Nodes of one view built one below the other: \<open>nodeChain vw p ds\<close> hangs a node for each
  entry of \<open>ds\<close> (index, render node, source AST, element part) under the one before,
  the first under \<open>p\<close>, and returns the last.
\<close>

type_synonym NodeData = "nat \<times> Expr \<times> TemplateAst \<times> ElementPart option"

fun nodeChain :: "nat \<Rightarrow> CompileNode \<Rightarrow> NodeData list \<Rightarrow> CompileNode" where
  "nodeChain vw p [] = p"
| "nodeChain vw p ((i, r, a, e) # ds) = nodeChain vw (CompileNode p vw i r a e) ds"

definition isContainerData :: "NodeData \<Rightarrow> bool" where
  "isContainerData d = (astName (fst (snd (snd d))) = Some NG_CONTAINER_TAG)"

section \<open>Collaborators and views for examples\<close>

definition plainGetPropertyInView :: "Expr \<Rightarrow> CompileViewRef \<Rightarrow> CompileViewRef \<Rightarrow> error + Expr" where
  "plainGetPropertyInView property callingView definedView =
     Inr (InvokeFunctionExpr (ExternalExpr ''getPropertyInView'')
            [property, LiteralExpr (LitNat (refId callingView)),
             LiteralExpr (LitNat (refId definedView))])"

definition plainReplaceVar :: "string \<Rightarrow> Expr \<Rightarrow> Expr \<Rightarrow> Expr" where
  "plainReplaceVar varName newValue expr =
     InvokeFunctionExpr (ExternalExpr ''replaceVarInExpression'')
       [LiteralExpr (LitString varName), newValue, expr]"

definition plainCreatePureProxy :: "Expr \<Rightarrow> nat \<Rightarrow> Expr \<Rightarrow> CompileView \<Rightarrow> error + CompileView" where
  "plainCreatePureProxy fn argCount proxyExpr v =
     Inr (addStmt (ExpressionStatement (InvokeFunctionExpr (ExternalExpr ''createPureProxy'')
            [fn, LiteralExpr (LitNat argCount), proxyExpr])) v)"

definition rootViewRef :: CompileViewRef where
  "rootViewRef = CompileViewRef 0 ''_View_App0'' [(''outer'', ReadPropExpr THIS_EXPR ''_outer'')]
     NullElementRef"

definition embeddedViewRef :: CompileViewRef where
  "embeddedViewRef =
     CompileViewRef 1 ''_View_App1''
       [(''item'', ReadPropExpr (ReadPropExpr THIS_EXPR ''context'') ''$implicit'')]
       (CompileElementRef rootViewRef (ReadPropExpr THIS_EXPR ''_appEl_0''))"

definition eventShadowingViewRef :: CompileViewRef where
  "eventShadowingViewRef =
     CompileViewRef 2 ''_View_App2'' [(''$event'', ReadPropExpr THIS_EXPR ''_shadow'')]
       (CompileElementRef embeddedViewRef (ReadPropExpr THIS_EXPR ''_appEl_1''))"


definition sampleQuery :: CompileQuery where
  "sampleQuery =
     \<lparr>meta = \<lparr>first = True, propertyName = ''child''\<rparr>,
      queryList = ReadPropExpr THIS_EXPR ''_viewQuery_Child_0'',
      ownerDirectiveExpression = Some (ReadPropExpr THIS_EXPR ''context''),
      query_view = rootViewRef,
      query_values = ViewQueryValues (Some rootViewRef) []\<rparr>"

text \<open>A choice of the collaborators for evaluating the builder on examples.\<close>

definition plainCollaborators :: Collaborators where
  "plainCollaborators =
     \<lparr>resetDebugInfoExpr = (\<lambda>i ast. NULL_EXPR),
      newAppElement = (\<lambda>i. ReadPropExpr THIS_EXPR (''_appEl_'' @ string_of_nat i)),
      elementInjector = (\<lambda>i. InvokeMethodExpr THIS_EXPR ''injector'' [LiteralExpr (LitNat i)]),
      getComponent = (\<lambda>i. ReadPropExpr THIS_EXPR (''_comp_'' @ string_of_nat i)),
      createFlatArray = LiteralArrayExpr,
      getViewFactoryName = (\<lambda>d i. ''viewFactory_'' @ type_name d @ string_of_nat i),
      providerTokens = (\<lambda>ast. []),
      referenceTokens = (\<lambda>ast. []),
      createDiTokenExpression = ExternalExpr,
      replaceVarInExpression = plainReplaceVar,
      findReadVarNames = (\<lambda>stmts. [])\<rparr>"

text \<open>A component that is not a host wrapper, for examples.\<close>

definition compA :: CompileDirectiveMetadata where
  "compA = plainDirective\<lparr>type_name := ''App'', isComponent := True\<rparr>"

definition embeddedVisitor :: ViewBuilderVisitor where
  "embeddedVisitor =
     \<lparr>view = newCompileView compA False NULL_EXPR [] 1 NullElement [] 1, targetDependencies = [],
      nestedViewCount = 0, embeddedViews = [], nextViewId = 2\<rparr>"

definition containerAst :: "nat option \<Rightarrow> TemplateAst" where
  "containerAst nci = ElementAst ''ng-container'' [] [] False [] nci"


section \<open>Properties of the attribute merge\<close>

lemma setProperty_map_of:
  "map_of (setProperty k v r) name =
     (if name = k \<and> k \<noteq> ''__proto__'' then Some v else map_of r name)"
  by (simp add: setProperty_def update_conv')

lemma setProperty_distinct:
  "distinct (map fst r) \<Longrightarrow> distinct (map fst (setProperty k v r))"
  by (simp add: setProperty_def distinct_update)

lemma setProperty_no_proto:
  "''__proto__'' \<notin> fst ` set r \<Longrightarrow> ''__proto__'' \<notin> fst ` set (setProperty k v r)"
  by (simp add: setProperty_def dom_update)

lemma foldl_setProperty_map_of:
  "distinct (map fst xs) \<Longrightarrow> name \<noteq> ''__proto__'' \<Longrightarrow>
   map_of (foldl (\<lambda>result (key, v). setProperty key v result) r0 xs) name =
     (case map_of xs name of Some v \<Rightarrow> Some v | None \<Rightarrow> map_of r0 name)"
proof (induction xs arbitrary: r0)
  case Nil
  then show ?case by simp
next
  case (Cons x xs)
  obtain k v where x: "x = (k, v)" by (cases x)
  from Cons.prems have d: "distinct (map fst xs)" and nk: "k \<notin> fst ` set xs"
    by (auto simp: x)
  from nk have none: "map_of xs k = None"
    by (simp add: map_of_eq_None_iff)
  show ?case
    using Cons.IH [OF d Cons.prems(2), of "setProperty k v r0"] none Cons.prems(2)
    by (auto simp: x setProperty_map_of split: option.splits)
qed

lemma foldl_setProperty_distinct:
  "distinct (map fst r0) \<Longrightarrow>
   distinct (map fst (foldl (\<lambda>result (key, v). setProperty key v result) r0 xs))"
  by (induction xs arbitrary: r0) (auto simp: setProperty_distinct)

lemma foldl_setProperty_no_proto:
  "''__proto__'' \<notin> fst ` set r0 \<Longrightarrow>
   ''__proto__'' \<notin> fst ` set (foldl (\<lambda>result (key, v). setProperty key v result) r0 xs)"
proof (induction xs arbitrary: r0)
  case Nil
  then show ?case by simp
next
  case (Cons x xs)
  obtain k v where x: "x = (k, v)" by (cases x)
  from Cons.IH [OF setProperty_no_proto [OF Cons.prems, of k v]]
  show ?case by (simp add: x)
qed

lemma readHtmlAttrs_snoc:
  "readHtmlAttrs (attrs @ [ast]) =
     setProperty (attr_name ast) (attr_value ast) (readHtmlAttrs attrs)"
  by (simp add: readHtmlAttrs_def)

lemma readHtmlAttrs_distinct: "distinct (map fst (readHtmlAttrs attrs))"
  by (induction attrs rule: rev_induct)
    (simp_all add: readHtmlAttrs_snoc setProperty_distinct, simp add: readHtmlAttrs_def)

lemma readHtmlAttrs_map_of:
  "name \<noteq> ''__proto__'' \<Longrightarrow>
   map_of (readHtmlAttrs attrs) name = map_of (elementAttrs attrs) name"
proof (induction attrs rule: rev_induct)
  case Nil
  show ?case by (simp add: readHtmlAttrs_def elementAttrs_def)
next
  case (snoc ast attrs)
  then show ?case
    by (simp add: readHtmlAttrs_snoc setProperty_map_of elementAttrs_def)
qed

lemma mergeHostAttribute_map_of:
  "name \<noteq> ''__proto__'' \<Longrightarrow>
   map_of (mergeHostAttribute r (k, v)) name =
     (if name = k then mergeStep name (map_of r name) v else map_of r name)"
  by (auto simp add: mergeHostAttribute_def mergeStep_def setProperty_map_of Let_def)

lemma mergeHostAttribute_distinct:
  "distinct (map fst r) \<Longrightarrow> distinct (map fst (mergeHostAttribute r e))"
  by (simp add: mergeHostAttribute_def Let_def setProperty_distinct)

lemma mergeHostAttribute_no_proto:
  "''__proto__'' \<notin> fst ` set r \<Longrightarrow> ''__proto__'' \<notin> fst ` set (mergeHostAttribute r e)"
  by (simp add: mergeHostAttribute_def Let_def setProperty_no_proto)

lemma foldl_mergeHost_distinct:
  "distinct (map fst r) \<Longrightarrow> distinct (map fst (foldl mergeHostAttribute r hs))"
  by (induction hs arbitrary: r) (auto simp: mergeHostAttribute_distinct)

lemma foldl_mergeHost_no_proto:
  "''__proto__'' \<notin> fst ` set r \<Longrightarrow> ''__proto__'' \<notin> fst ` set (foldl mergeHostAttribute r hs)"
proof (induction hs arbitrary: r)
  case Nil
  then show ?case by simp
next
  case (Cons h hs)
  from Cons.IH [OF mergeHostAttribute_no_proto [OF Cons.prems, of h]]
  show ?case by simp
qed

lemma foldl_mergeHost_map_of:
  "distinct (map fst hs) \<Longrightarrow> name \<noteq> ''__proto__'' \<Longrightarrow>
   map_of (foldl mergeHostAttribute r hs) name =
     (case map_of hs name of
        None \<Rightarrow> map_of r name
      | Some v \<Rightarrow> mergeStep name (map_of r name) v)"
proof (induction hs arbitrary: r)
  case Nil
  then show ?case by simp
next
  case (Cons h hs)
  obtain k v where h: "h = (k, v)" by (cases h)
  from Cons.prems have d: "distinct (map fst hs)" and nk: "k \<notin> fst ` set hs"
    by (auto simp: h)
  from nk have none: "map_of hs k = None"
    by (simp add: map_of_eq_None_iff)
  show ?case
    using Cons.IH [OF d Cons.prems(2), of "mergeHostAttribute r (k, v)"] none Cons.prems(2)
    by (auto simp: h mergeHostAttribute_map_of split: option.splits)
qed

lemma foldl_directives_distinct:
  "distinct (map fst r) \<Longrightarrow>
   distinct (map fst (foldl (\<lambda>result directiveMeta.
       foldl mergeHostAttribute result (hostAttributes directiveMeta)) r ds))"
  by (induction ds arbitrary: r) (auto simp: foldl_mergeHost_distinct)

lemma foldl_directives_no_proto:
  "''__proto__'' \<notin> fst ` set r \<Longrightarrow>
   ''__proto__'' \<notin> fst ` set (foldl (\<lambda>result directiveMeta.
       foldl mergeHostAttribute result (hostAttributes directiveMeta)) r ds)"
proof (induction ds arbitrary: r)
  case Nil
  then show ?case by simp
next
  case (Cons d ds)
  from Cons.IH [OF foldl_mergeHost_no_proto [OF Cons.prems, of "hostAttributes d"]]
  show ?case by simp
qed

lemma foldl_directives_map_of:
  "wellFormedDirectives ds \<Longrightarrow> name \<noteq> ''__proto__'' \<Longrightarrow>
   map_of (foldl (\<lambda>result directiveMeta.
       foldl mergeHostAttribute result (hostAttributes directiveMeta)) r ds) name =
   foldl (mergeStep name) (map_of r name)
     (concat (map (\<lambda>d. case map_of (hostAttributes d) name of Some v \<Rightarrow> [v] | None \<Rightarrow> []) ds))"
proof (induction ds arbitrary: r)
  case Nil
  then show ?case by simp
next
  case (Cons d ds)
  from Cons.prems have wd: "distinct (map fst (hostAttributes d))" and wds: "wellFormedDirectives ds"
    by (simp_all add: wellFormedDirectives_def)
  show ?case
    using Cons.IH [OF wds Cons.prems(2), of "foldl mergeHostAttribute r (hostAttributes d)"]
    by (simp add: foldl_mergeHost_map_of [OF wd Cons.prems(2)] split: option.splits)
qed

lemma joinSpace_snoc_head:
  "joinSpace ((p @ CHR '' '' # v) # vs) = p @ CHR '' '' # joinSpace (v # vs)"
  by (cases vs) simp_all

lemma foldl_mergeStep_class:
  "name = ''class'' \<or> name = ''style'' \<Longrightarrow>
   foldl (mergeStep name) (Some p) vs = Some (joinSpace (p # vs))"
proof (induction vs arbitrary: p)
  case Nil
  then show ?case by simp
next
  case (Cons v vs)
  have "mergeStep name (Some p) v = Some (p @ '' '' @ v)"
    using Cons.prems by (auto simp: mergeStep_def mergeAttributeValue_def CLASS_ATTR_def STYLE_ATTR_def)
  then show ?case
    using Cons.IH [OF Cons.prems, of "p @ '' '' @ v"]
    by (simp add: joinSpace_snoc_head)
qed

lemma foldl_mergeStep_other:
  "name \<noteq> ''class'' \<Longrightarrow> name \<noteq> ''style'' \<Longrightarrow>
   foldl (mergeStep name) (Some p) vs = Some (last (p # vs))"
proof (induction vs arbitrary: p)
  case Nil
  then show ?case by simp
next
  case (Cons v vs)
  have "mergeStep name (Some p) v = Some v"
    using Cons.prems by (auto simp: mergeStep_def mergeAttributeValue_def CLASS_ATTR_def STYLE_ATTR_def)
  then show ?case
    using Cons.IH [OF Cons.prems, of v] by simp
qed

lemma foldl_mergeStep_closed:
  "foldl (mergeStep name) acc vs =
     (let ws = (case acc of Some v \<Rightarrow> [v] | None \<Rightarrow> []) @ vs
      in if ws = [] then None
         else if name = ''class'' \<or> name = ''style'' then Some (joinSpace ws)
         else Some (last ws))"
proof (cases acc)
  case None
  show ?thesis
  proof (cases vs)
    case Nil
    with None show ?thesis by simp
  next
    case (Cons v vs')
    have "mergeStep name None v = Some v" by (simp add: mergeStep_def)
    with None Cons show ?thesis
      using foldl_mergeStep_class [of name v vs'] foldl_mergeStep_other [of name v vs']
      by (auto simp: Let_def)
  qed
next
  case (Some p)
  then show ?thesis
    using foldl_mergeStep_class [of name p vs] foldl_mergeStep_other [of name p vs]
    by (auto simp: Let_def)
qed

lemma entryArray_foldl: "foldl (\<lambda>entryArray (name, v). entryArray @ [(name, v)]) acc data = acc @ data"
  by (induction data arbitrary: acc) auto

lemma distinct_map_insort_key:
  "distinct (map g (insort_key f x ys)) = (g x \<notin> g ` set ys \<and> distinct (map g ys))"
  by (induction ys) (auto simp: set_insort_key)

lemma distinct_map_sort_key:
  "distinct (map g (sort_key f xs)) = distinct (map g xs)"
  by (induction xs) (simp_all add: distinct_map_insort_key)

lemma mapToKeyValueArray_eq: "mapToKeyValueArray data = sort_key entryString data"
  by (simp add: mapToKeyValueArray_def ListWrapper_sort_def entryArray_foldl)

lemma mapToKeyValueArray_map_of:
  assumes "distinct (map fst data)"
  shows "map_of (mapToKeyValueArray data) = map_of data"
proof -
  have "distinct (map fst (sort_key entryString data))"
    using assms by (simp add: distinct_map_sort_key)
  moreover have "set (sort_key entryString data) = set data" by simp
  ultimately show ?thesis
    unfolding mapToKeyValueArray_eq using assms by (intro map_of_inject_set [THEN iffD2])
qed

text \<open>
  The merged attributes of an element, read as a map from names. For every name other
  than \<^verbatim>\<open>__proto__\<close> the name is bound to the values declared for it (the HTML value
  first, then one value for each directive that declares the name, in the order of the
  directives), joined by single spaces for \<open>class\<close> and \<open>style\<close>, and to the last of
  these values for any other name. The host attributes of a directive are an object, so
  their keys are distinct.
\<close>

lemma merged_attrs_other_names:
  assumes "wellFormedDirectives directives" and "name \<noteq> ''__proto__''"
  shows "map_of (mergeHtmlAndDirectiveAttrs (readHtmlAttrs attrs) directives) name =
           mergedValue (elementAttrs attrs) directives name"
proof -
  let ?h = "readHtmlAttrs attrs"
  let ?r0 = "foldl (\<lambda>result (key, v). setProperty key v result) [] ?h"
  let ?r1 = "foldl (\<lambda>result directiveMeta.
                foldl mergeHostAttribute result (hostAttributes directiveMeta)) ?r0 directives"
  have d0: "distinct (map fst ?r0)" by (rule foldl_setProperty_distinct) simp
  have d1: "distinct (map fst ?r1)" by (rule foldl_directives_distinct [OF d0])
  have "map_of ?r0 name = map_of ?h name"
    using foldl_setProperty_map_of [OF readHtmlAttrs_distinct assms(2), where ?r0.0 = "[]"
        and attrs1 = attrs]
    by (simp split: option.splits)
  then have m0: "map_of ?r0 name = map_of (elementAttrs attrs) name"
    by (simp add: readHtmlAttrs_map_of [OF assms(2)])
  have "map_of (mergeHtmlAndDirectiveAttrs ?h directives) name = map_of ?r1 name"
    by (simp add: mergeHtmlAndDirectiveAttrs_def Let_def mapToKeyValueArray_map_of [OF d1])
  also have "\<dots> = mergedValue (elementAttrs attrs) directives name"
    unfolding foldl_directives_map_of [OF assms] m0 foldl_mergeStep_closed
    by (simp add: mergedValue_def declaredValues_def)
  finally show ?thesis .
qed

text \<open>No merged attribute has the name \<^verbatim>\<open>__proto__\<close>, whatever is declared for it.\<close>

lemma merged_attrs_proto:
  "map_of (mergeHtmlAndDirectiveAttrs htmlAttrs directives) ''__proto__'' = None"
proof -
  let ?r0 = "foldl (\<lambda>result (key, v). setProperty key v result) [] htmlAttrs"
  let ?r1 = "foldl (\<lambda>result directiveMeta.
                foldl mergeHostAttribute result (hostAttributes directiveMeta)) ?r0 directives"
  have "''__proto__'' \<notin> fst ` set ?r0" by (rule foldl_setProperty_no_proto) simp
  then have "''__proto__'' \<notin> fst ` set ?r1" by (rule foldl_directives_no_proto)
  moreover have "set (mergeHtmlAndDirectiveAttrs htmlAttrs directives) = set ?r1"
    by (simp add: mergeHtmlAndDirectiveAttrs_def Let_def mapToKeyValueArray_eq)
  ultimately show ?thesis
    by (simp add: map_of_eq_None_iff)
qed

text \<open>
  The scenario of the spec with the value \<open>a\<close> as a static attribute: an element with the
  class \<open>a\<close> and one directive whose host attributes declare the class \<open>b\<close>. Whether
  the binding \<^verbatim>\<open>[class]="'a'"\<close> reaches the builder among the static attributes is
  decided by the template parser.
\<close>

lemma merged_attrs_scenario:
  "mergeHtmlAndDirectiveAttrs
     (readHtmlAttrs [\<lparr>attr_name = ''class'', attr_value = ''a''\<rparr>])
     [plainDirective\<lparr>hostAttributes := [(''class'', ''b'')]\<rparr>] = [(''class'', ''a b'')]"
  by (simp add: mergeHtmlAndDirectiveAttrs_def readHtmlAttrs_def mapToKeyValueArray_def
      ListWrapper_sort_def mergeHostAttribute_def mergeAttributeValue_def CLASS_ATTR_def
      setProperty_def)

text \<open>
  C1. The merge loses an attribute of the name \<^verbatim>\<open>__proto__\<close>: the element
  \<^verbatim>\<open><div __proto__="x" id="y">\<close> without directives declares the value \<open>x\<close> for this
  name, which the merged attributes are to hold, and the merge returns the attribute
  \<open>id\<close> alone. The same happens to a host attribute of this name.
\<close>

theorem proto_attribute_dropped:
  "mergedValue
     (elementAttrs [\<lparr>attr_name = ''__proto__'', attr_value = ''x''\<rparr>,
                    \<lparr>attr_name = ''id'', attr_value = ''y''\<rparr>]) [] ''__proto__'' = Some ''x'' \<and>
   readHtmlAttrs [\<lparr>attr_name = ''__proto__'', attr_value = ''x''\<rparr>,
                  \<lparr>attr_name = ''id'', attr_value = ''y''\<rparr>] = [(''id'', ''y'')] \<and>
   mergeHtmlAndDirectiveAttrs
     (readHtmlAttrs [\<lparr>attr_name = ''__proto__'', attr_value = ''x''\<rparr>,
                     \<lparr>attr_name = ''id'', attr_value = ''y''\<rparr>]) [] = [(''id'', ''y'')] \<and>
   mergeHtmlAndDirectiveAttrs (readHtmlAttrs [])
     [plainDirective\<lparr>hostAttributes := [(''__proto__'', ''z'')]\<rparr>] = []"
  by (simp add: mergedValue_def declaredValues_def elementAttrs_def
      mergeHtmlAndDirectiveAttrs_def readHtmlAttrs_def mapToKeyValueArray_def
      ListWrapper_sort_def mergeHostAttribute_def setProperty_def)


section \<open>Properties of the view builder\<close>

lemma sameFrame_refl: "sameFrame this this"
  by (simp add: sameFrame_def)

lemma addRootNodeAndProject_frame:
  "sameFrame this (addRootNodeAndProject node this)"
  by (simp add: sameFrame_def addRootNodeAndProject_def addContentNode_def Let_def
      split: CompileNode.splits option.splits)

lemma addRootNodeAndProject_nodes:
  "nodes (view (addRootNodeAndProject node this)) = nodes (view this)"
  by (simp add: addRootNodeAndProject_def addContentNode_def Let_def
      split: CompileNode.splits option.splits)

lemma visitTextImpl_frame: "sameFrame this (visitTextImpl c ast txt parent this)"
  using addRootNodeAndProject_frame
  by (simp add: visitTextImpl_def Let_def sameFrame_def addStmt_def)

lemma visitNgContent_frame: "sameFrame this (visitNgContent index nci parent this)"
  by (simp add: visitNgContent_def Let_def sameFrame_def addStmt_def addContentNode_def
      split: option.splits)

lemma visitElementStart_frame:
  "visitElementStart c name attrs directives hasVc children nci parent this = (ce, cv, this1)
   \<Longrightarrow> sameFrame this this1"
  using addRootNodeAndProject_frame
  by (auto simp: visitElementStart_def Let_def sameFrame_def addStmt_def split: option.splits)

lemma visitElementEnd_frame: "sameFrame this (visitElementEnd c ce cv this)"
  by (simp add: visitElementEnd_def Let_def sameFrame_def addStmt_def split: option.splits)


lemma sameFrame_sameView: "sameFrame this this' \<Longrightarrow> sameView this this'"
  by (simp add: sameFrame_def sameView_def)

lemma sameView_trans: "sameView a b \<Longrightarrow> sameView b d \<Longrightarrow> sameView a d"
  by (simp add: sameView_def)

lemma sameFrame_numbered: "sameFrame this this' \<Longrightarrow> numbered this \<Longrightarrow> numbered this'"
  by (simp add: sameFrame_def numbered_def subViews_def)

lemma visitEmbeddedTemplateStart_frame:
  assumes "visitEmbeddedTemplateStart c variables directives hasVc children nci parent this =
             (ce, ev, this1)"
  shows "sameView this this1"
    and "nestedViewCount this1 = nestedViewCount this + 1"
    and "nextViewId this1 = nextViewId this + 1"
    and "embeddedViews this1 = embeddedViews this"
    and "viewIndex ev = viewIndex (view this) + nestedViewCount this + 1"
    and "viewId ev = nextViewId this"
  using assms
  by (auto simp: visitEmbeddedTemplateStart_def Let_def sameView_def addStmt_def
      newCompileView_def)

lemma visitEmbeddedTemplateEnd_frame:
  shows "sameView this (visitEmbeddedTemplateEnd ce (tree, n, deps, nid) this)"
    and "nestedViewCount (visitEmbeddedTemplateEnd ce (tree, n, deps, nid) this) =
           nestedViewCount this + n"
    and "nextViewId (visitEmbeddedTemplateEnd ce (tree, n, deps, nid) this) = nid"
    and "\<exists>i. embeddedViews (visitEmbeddedTemplateEnd ce (tree, n, deps, nid) this) =
           embeddedViews this @ [(i, tree)]"
  using addRootNodeAndProject_frame
    [of "this\<lparr>nestedViewCount := nestedViewCount this + n, targetDependencies := deps,
              nextViewId := nid,
              embeddedViews := embeddedViews this @
                [(case nodeIndexOf ce of Some i \<Rightarrow> i | None \<Rightarrow> 0, tree)]\<rparr>" ce]
  by (auto simp: visitEmbeddedTemplateEnd_def sameFrame_def sameView_def)

lemma upt_cons_head: "a # [a + 1 ..< a + 1 + n] = [a ..< a + 1 + (n::nat)]"
  by (simp add: upt_conv_Cons del: upt_Suc)

lemma upt_append_two: "[a ..< a + n] @ [a + n ..< a + n + m] = [a ..< a + n + (m::nat)]"
  by (metis le_add1 upt_add_eq_append)

declare buildView.simps [simp del]

lemma numbering:
  "numbered vis \<Longrightarrow>
     numbered (visit c ast parent vis) \<and> sameView vis (visit c ast parent vis) \<and>
     nestedViewCount (visit c ast parent vis) = nestedViewCount vis + countEmbedded ast"
  "numbered vis \<Longrightarrow>
     numbered (templateVisitAll c asts ctx vis) \<and>
     sameView vis (templateVisitAll c asts ctx vis) \<and>
     nestedViewCount (templateVisitAll c asts ctx vis) =
       nestedViewCount vis + countEmbeddedAll asts"
  "nextId = viewId v + 1 \<Longrightarrow> builtNumbered v template (buildView c v template deps nextId)"
proof (induction c ast parent vis and c asts ctx vis and c v template deps nextId
    rule: visit_templateVisitAll_buildView.induct)
  case (1 c tv nci parent vis)
  have f: "sameFrame vis (visitTextImpl c (TextAst tv nci) tv parent vis)"
    by (rule visitTextImpl_frame)
  show ?case
    using f sameFrame_numbered [OF f "1.prems"] sameFrame_sameView [OF f]
    by (simp add: sameFrame_def)
next
  case (2 c nci parent vis)
  have f: "sameFrame vis (visitTextImpl c (BoundTextAst nci) [] parent vis)"
    by (rule visitTextImpl_frame)
  show ?case
    using f sameFrame_numbered [OF f "2.prems"] sameFrame_sameView [OF f]
    by (simp add: sameFrame_def)
next
  case (3 c index nci parent vis)
  have f: "sameFrame vis (visitNgContent index nci parent vis)"
    by (rule visitNgContent_frame)
  show ?case
    using f sameFrame_numbered [OF f "3.prems"] sameFrame_sameView [OF f]
    by (simp add: sameFrame_def)
next
  case (4 c parent vis)
  then show ?case by (simp add: sameView_def)
next
  case (5 c name attrs directives hasVc children nci parent vis)
  obtain ce cv vis1 where
    st: "visitElementStart c name attrs directives hasVc children nci parent vis = (ce, cv, vis1)"
    by (metis prod_cases3)
  have f1: "sameFrame vis vis1" by (rule visitElementStart_frame [OF st])
  have n1: "numbered vis1" by (rule sameFrame_numbered [OF f1 "5.prems"])
  let ?this2 = "templateVisitAll c children ce vis1"
  have ih: "numbered ?this2 \<and> sameView vis1 ?this2 \<and>
            nestedViewCount ?this2 = nestedViewCount vis1 + countEmbeddedAll children"
    using "5.IH" [of ce "(cv, vis1)" cv vis1] st n1 by simp
  have f3: "sameFrame ?this2 (visitElementEnd c ce cv ?this2)"
    by (rule visitElementEnd_frame)
  have "numbered (visitElementEnd c ce cv ?this2)"
    using sameFrame_numbered [OF f3] ih by simp
  moreover have "sameView vis (visitElementEnd c ce cv ?this2)"
    using sameFrame_sameView [OF f1] ih sameFrame_sameView [OF f3]
    by (blast intro: sameView_trans)
  moreover have "nestedViewCount (visitElementEnd c ce cv ?this2) =
      nestedViewCount vis + countEmbeddedAll children"
    using f3 f1 ih by (simp add: sameFrame_def)
  ultimately show ?case by (simp add: st)
next
  case (6 c variables directives hasVc children nci parent vis)
  obtain ce ev vis1 where
    st: "visitEmbeddedTemplateStart c variables directives hasVc children nci parent vis =
           (ce, ev, vis1)"
    by (metis prod_cases3)
  note fr = visitEmbeddedTemplateStart_frame [OF st]
  obtain tree n deps nid where
    b: "buildView c ev children (targetDependencies vis1) (nextViewId vis1) =
          (tree, n, deps, nid)"
    by (metis prod_cases4)
  from "6.prems" have nx: "nextViewId vis = viewId (view vis) + 1 + nestedViewCount vis"
    by (simp add: numbered_def)
  have "builtNumbered ev children
          (buildView c ev children (targetDependencies vis1) (nextViewId vis1))"
    using "6.IH" [OF st [symmetric] refl] fr nx by simp
  then have bn: "n = countEmbeddedAll children"
    "map viewIndex (allViews tree) = [viewIndex ev ..< viewIndex ev + 1 + n]"
    "map viewId (allViews tree) = [viewId ev ..< viewId ev + 1 + n]"
    "nid = viewId ev + 1 + n"
    by (simp_all add: b builtNumbered_def)
  let ?res = "visitEmbeddedTemplateEnd ce (tree, n, deps, nid) vis1"
  note en = visitEmbeddedTemplateEnd_frame [where this = vis1 and ce = ce and tree = tree and n = n and deps = deps and nid = nid]
  obtain i where emb: "embeddedViews ?res = embeddedViews vis @ [(i, tree)]"
    using en(4) fr(4) by auto
  have sv: "sameView vis ?res" using fr(1) en(1) by (blast intro: sameView_trans)
  have cnt: "nestedViewCount ?res = nestedViewCount vis + 1 + n"
    using en(2) fr(2) by simp
  have sub: "subViews ?res = subViews vis @ allViews tree"
    by (simp add: subViews_def emb)
  let ?vi = "viewIndex (view vis)" and ?d = "viewId (view vis)" and ?k = "nestedViewCount vis"
  have "map viewIndex (subViews ?res) = [?vi + 1 ..< ?vi + 1 + ?k] @ [?vi + 1 + ?k ..< ?vi + 1 + ?k + (1 + n)]"
    using "6.prems" bn(2) fr(5) by (simp add: sub numbered_def add.commute add.left_commute)
  then have a1: "map viewIndex (subViews ?res) = [?vi + 1 ..< ?vi + 1 + (?k + 1 + n)]"
    by (simp only: upt_append_two) (simp add: add.assoc)
  have "map viewId (subViews ?res) = [?d + 1 ..< ?d + 1 + ?k] @ [?d + 1 + ?k ..< ?d + 1 + ?k + (1 + n)]"
    using "6.prems" bn(3) fr(6) nx by (simp add: sub numbered_def add.commute add.left_commute)
  then have a2: "map viewId (subViews ?res) = [?d + 1 ..< ?d + 1 + (?k + 1 + n)]"
    by (simp only: upt_append_two) (simp add: add.assoc)
  have a3: "nextViewId ?res = ?d + 1 + (?k + 1 + n)"
    using en(3) bn(4) fr(6) nx by simp
  have "numbered ?res"
    using a1 a2 a3 sv cnt by (simp add: numbered_def sameView_def)
  then show ?case
    using sv cnt bn(1) by (simp add: st b)
next
  case (7 c ctx vis)
  then show ?case by (simp add: sameView_def)
next
  case (8 c ast asts ctx vis)
  from "8.IH"(1) [OF "8.prems"] have
    h1: "numbered (visit c ast ctx vis)" and
    h2: "sameView vis (visit c ast ctx vis)" and
    h3: "nestedViewCount (visit c ast ctx vis) = nestedViewCount vis + countEmbedded ast"
    by simp_all
  from "8.IH"(2) [OF h1] h2 h3 show ?case
    by (auto intro: sameView_trans)
next
  case (9 c v template deps nextId)
  let ?bv = "\<lparr>view = v, targetDependencies = deps, nestedViewCount = 0,
              embeddedViews = [], nextViewId = nextId\<rparr>"
  have n0: "numbered ?bv" using "9.prems" by (simp add: numbered_def subViews_def)
  let ?fin = "templateVisitAll c template (declarationParent (declarationElement v)) ?bv"
  from "9.IH" [OF refl n0] have
    h1: "numbered ?fin" and h2: "sameView ?bv ?fin" and
    h3: "nestedViewCount ?fin = countEmbeddedAll template"
    by simp_all
  have b: "buildView c v template deps nextId =
      (ViewTree (view ?fin) (embeddedViews ?fin), nestedViewCount ?fin,
       targetDependencies ?fin, nextViewId ?fin)"
    by (simp add: buildView.simps Let_def)
  have av: "allViews (ViewTree (view ?fin) (embeddedViews ?fin)) = view ?fin # subViews ?fin"
    by (simp add: subViews_def)
  from h2 have e1: "viewIndex (view ?fin) = viewIndex v" and e2: "viewId (view ?fin) = viewId v"
    by (simp_all add: sameView_def)
  from h1 have
    i1: "map viewIndex (subViews ?fin) =
           [viewIndex v + 1 ..< viewIndex v + 1 + countEmbeddedAll template]" and
    i2: "map viewId (subViews ?fin) = [viewId v + 1 ..< viewId v + 1 + countEmbeddedAll template]" and
    i3: "nextViewId ?fin = viewId v + 1 + countEmbeddedAll template"
    unfolding numbered_def e1 e2 h3 by blast+
  have j1: "map viewIndex (view ?fin # subViews ?fin) =
      [viewIndex v ..< viewIndex v + 1 + countEmbeddedAll template]"
    unfolding list.map i1 e1 by (rule upt_cons_head)
  have j2: "map viewId (view ?fin # subViews ?fin) =
      [viewId v ..< viewId v + 1 + countEmbeddedAll template]"
    unfolding list.map i2 e2 by (rule upt_cons_head)
  show ?case
    unfolding b builtNumbered_def prod.case av h3
    using j1 j2 i3 by blast
qed



text \<open>
  C5. A compilation starts from a view whose successor in the count of constructed views
  is \<open>nextId\<close>. \<^verbatim>\<open>buildView\<close> returns the number of embedded-template nodes of the
  template, nested ones included, and constructs one view for each of them: listed in the
  order of their construction (\<open>viewId\<close> counts the views constructed before), the views
  carry consecutive nesting indices that start at the index of the root view. So the
  view of an embedded template receives the index of the root view plus one plus the
  number of embedded views constructed before it.
\<close>

theorem embedded_views_numbered:
  assumes "nextId = viewId v + 1"
  shows "case buildView c v template deps nextId of
           (tree, nested, deps', nextId') \<Rightarrow>
             nested = countEmbeddedAll template \<and>
             length (allViews tree) = 1 + countEmbeddedAll template \<and>
             map viewId (allViews tree) = [viewId v ..< viewId v + 1 + nested] \<and>
             map viewIndex (allViews tree) = [viewIndex v ..< viewIndex v + 1 + nested]"
proof -
  obtain tree nested deps' nextId' where
    b: "buildView c v template deps nextId = (tree, nested, deps', nextId')"
    by (metis prod_cases4)
  from numbering(3) [OF assms, of template c deps] have
    n: "nested = countEmbeddedAll template" and
    i: "map viewIndex (allViews tree) = [viewIndex v ..< viewIndex v + 1 + nested]" and
    d: "map viewId (allViews tree) = [viewId v ..< viewId v + 1 + nested]"
    by (simp_all add: b builtNumbered_def)
  have "length (map viewId (allViews tree)) = 1 + nested"
    unfolding d by simp
  then have "length (allViews tree) = 1 + countEmbeddedAll template"
    using n by simp
  with n i d show ?thesis by (simp add: b)
qed

text \<open>
  The scenario of the spec: a component view of index 0 over two structural directives,
  one nested in the other.
\<close>

theorem embedded_views_numbered_scenario:
  "case buildView plainCollaborators (newCompileView compA False NULL_EXPR [] 0 NullElement [] 0)
          [EmbeddedTemplateAst [] [] True [EmbeddedTemplateAst [] [] True [] None] None] [] 1 of
     (tree, nested, deps', nextId') \<Rightarrow>
       nested = 2 \<and> length (allViews tree) = 3 \<and>
       map viewId (allViews tree) = [0, 1, 2] \<and>
       map viewIndex (allViews tree) = [0, 1, 2]"
proof -
  let ?v = "newCompileView compA False NULL_EXPR [] 0 NullElement [] 0"
  let ?t = "[EmbeddedTemplateAst [] [] True [EmbeddedTemplateAst [] [] True [] None] None]"
  have h: "(1::nat) = viewId ?v + 1" by (simp add: newCompileView_def)
  have u: "[0 ..< 0 + 1 + 2] = [0, 1, 2::nat]" by code_simp
  have i0: "viewIndex ?v = 0" and d0: "viewId ?v = 0" by (simp_all add: newCompileView_def)
  have n: "countEmbeddedAll ?t = 2" by simp
  obtain tree nested deps' nextId' where
    b: "buildView plainCollaborators ?v ?t [] 1 = (tree, nested, deps', nextId')"
    by (metis prod_cases4)
  from embedded_views_numbered [OF h, where c = plainCollaborators and template = ?t and deps = "[]"]
  have f: "nested = 2" "length (allViews tree) = 1 + 2"
    "map viewId (allViews tree) = [0 ..< 0 + 1 + nested]"
    "map viewIndex (allViews tree) = [0 ..< 0 + 1 + nested]"
    unfolding b prod.case i0 d0 n by blast+
  have g3: "map viewId (allViews tree) = [0, 1, 2]"
    using f(3) unfolding f(1) u .
  have g4: "map viewIndex (allViews tree) = [0, 1, 2]"
    using f(4) unfolding f(1) u .
  show ?thesis
    unfolding b prod.case using f(1) f(2) g3 g4 by simp
qed


lemma nodesIndexed_snoc:
  assumes "nodesIndexed v" and "nodes v' = nodes v @ [n]"
    and "nodeIndexOf n = Some (length (nodes v))"
  shows "nodesIndexed v'"
  using assms by (simp add: nodesIndexed_def)

lemma nodesIndexed_same: "nodesIndexed v \<Longrightarrow> nodes v' = nodes v \<Longrightarrow> nodesIndexed v'"
  by (simp add: nodesIndexed_def)

lemma addContentNode_nodes: "nodes (addContentNode i k e v) = nodes v"
  by (simp add: addContentNode_def Let_def)

lemma visitTextImpl_nodes:
  "\<exists>n. nodes (view (visitTextImpl c ast tv parent this)) = nodes (view this) @ [n] \<and>
       nodeIndexOf n = Some (length (nodes (view this))) \<and> sourceAstOf n = Some ast"
  by (simp add: visitTextImpl_def Let_def addRootNodeAndProject_nodes addStmt_def)

lemma visitNgContent_nodes:
  "nodes (view (visitNgContent index nci parent this)) = nodes (view this)"
  by (simp add: visitNgContent_def Let_def addStmt_def addContentNode_nodes split: option.splits)

lemma visitElementStart_nodes:
  assumes "visitElementStart c name attrs directives hasVc children nci parent this =
             (ce, cv, this1)"
  shows "nodes (view this1) = nodes (view this) @ [ce]"
    and "nodeIndexOf ce = Some (length (nodes (view this)))"
    and "sourceAstOf ce = Some (ElementAst name attrs directives hasVc children nci)"
  using assms
  by (auto simp: visitElementStart_def Let_def addRootNodeAndProject_nodes addStmt_def
      split: option.splits)

lemma visitElementEnd_nodes:
  "nodes (view (visitElementEnd c ce cv this)) = nodes (view this)"
  by (simp add: visitElementEnd_def Let_def addStmt_def split: option.splits)

lemma visitEmbeddedTemplateStart_nodes:
  assumes "visitEmbeddedTemplateStart c variables directives hasVc children nci parent this =
             (ce, ev, this1)"
  shows "nodes (view this1) = nodes (view this) @ [ce]"
    and "nodeIndexOf ce = Some (length (nodes (view this)))"
    and "sourceAstOf ce = Some (EmbeddedTemplateAst variables directives hasVc children nci)"
    and "nodes ev = []"
  using assms
  by (auto simp: visitEmbeddedTemplateStart_def Let_def addStmt_def newCompileView_def)

lemma visitEmbeddedTemplateEnd_nodes:
  "nodes (view (visitEmbeddedTemplateEnd ce built this)) = nodes (view this)"
  by (simp add: visitEmbeddedTemplateEnd_def addRootNodeAndProject_nodes split: prod.splits)

lemma indexing:
  "indexedVisitor vis \<Longrightarrow>
     indexedVisitor (visit c ast parent vis) \<and>
     map sourceAstOf (nodes (view (visit c ast parent vis))) =
       map sourceAstOf (nodes (view vis)) @ map Some (viewNodeAsts ast)"
  "indexedVisitor vis \<Longrightarrow>
     indexedVisitor (templateVisitAll c asts ctx vis) \<and>
     map sourceAstOf (nodes (view (templateVisitAll c asts ctx vis))) =
       map sourceAstOf (nodes (view vis)) @ map Some (viewNodeAstsAll asts)"
  "nodesIndexed v \<Longrightarrow> builtIndexed v template (buildView c v template deps nextId)"
proof (induction c ast parent vis and c asts ctx vis and c v template deps nextId
    rule: visit_templateVisitAll_buildView.induct)
  case (1 c tv nci parent vis)
  obtain n where n: "nodes (view (visitTextImpl c (TextAst tv nci) tv parent vis)) =
      nodes (view vis) @ [n]" "nodeIndexOf n = Some (length (nodes (view vis)))"
      "sourceAstOf n = Some (TextAst tv nci)"
    using visitTextImpl_nodes by blast
  have f: "sameFrame vis (visitTextImpl c (TextAst tv nci) tv parent vis)"
    by (rule visitTextImpl_frame)
  have "nodesIndexed (view (visitTextImpl c (TextAst tv nci) tv parent vis))"
    using "1.prems" nodesIndexed_snoc [OF _ n(1) n(2)] by (simp add: indexedVisitor_def)
  then show ?case
    using "1.prems" f n by (simp add: indexedVisitor_def subViews_def sameFrame_def)
next
  case (2 c nci parent vis)
  obtain n where n: "nodes (view (visitTextImpl c (BoundTextAst nci) [] parent vis)) =
      nodes (view vis) @ [n]" "nodeIndexOf n = Some (length (nodes (view vis)))"
      "sourceAstOf n = Some (BoundTextAst nci)"
    using visitTextImpl_nodes by blast
  have f: "sameFrame vis (visitTextImpl c (BoundTextAst nci) [] parent vis)"
    by (rule visitTextImpl_frame)
  have "nodesIndexed (view (visitTextImpl c (BoundTextAst nci) [] parent vis))"
    using "2.prems" nodesIndexed_snoc [OF _ n(1) n(2)] by (simp add: indexedVisitor_def)
  then show ?case
    using "2.prems" f n by (simp add: indexedVisitor_def subViews_def sameFrame_def)
next
  case (3 c index nci parent vis)
  have f: "sameFrame vis (visitNgContent index nci parent vis)"
    by (rule visitNgContent_frame)
  show ?case
    using "3.prems" f nodesIndexed_same [OF _ visitNgContent_nodes]
    by (simp add: indexedVisitor_def subViews_def sameFrame_def visitNgContent_nodes)
next
  case (4 c parent vis)
  then show ?case by simp
next
  case (5 c name attrs directives hasVc children nci parent vis)
  obtain ce cv vis1 where
    st: "visitElementStart c name attrs directives hasVc children nci parent vis = (ce, cv, vis1)"
    by (metis prod_cases3)
  note nd = visitElementStart_nodes [OF st]
  have f1: "sameFrame vis vis1" by (rule visitElementStart_frame [OF st])
  have i1: "indexedVisitor vis1"
    using "5.prems" f1 nodesIndexed_snoc [OF _ nd(1) nd(2)]
    by (simp add: indexedVisitor_def subViews_def sameFrame_def)
  let ?vis2 = "templateVisitAll c children ce vis1"
  from "5.IH" [OF st [symmetric] refl i1] have
    i2: "indexedVisitor ?vis2" and
    a2: "map sourceAstOf (nodes (view ?vis2)) =
           map sourceAstOf (nodes (view vis1)) @ map Some (viewNodeAstsAll children)"
    by simp_all
  have f3: "sameFrame ?vis2 (visitElementEnd c ce cv ?vis2)"
    by (rule visitElementEnd_frame)
  have "indexedVisitor (visitElementEnd c ce cv ?vis2)"
    using i2 f3 nodesIndexed_same [OF _ visitElementEnd_nodes]
    by (simp add: indexedVisitor_def subViews_def sameFrame_def)
  then show ?case
    using a2 nd by (simp add: st visitElementEnd_nodes)
next
  case (6 c variables directives hasVc children nci parent vis)
  obtain ce ev vis1 where
    st: "visitEmbeddedTemplateStart c variables directives hasVc children nci parent vis =
           (ce, ev, vis1)"
    by (metis prod_cases3)
  note nd = visitEmbeddedTemplateStart_nodes [OF st]
  note fr = visitEmbeddedTemplateStart_frame [OF st]
  obtain tree n deps nid where
    b: "buildView c ev children (targetDependencies vis1) (nextViewId vis1) =
          (tree, n, deps, nid)"
    by (metis prod_cases4)
  have ev0: "nodesIndexed ev" using nd(4) by (simp add: nodesIndexed_def)
  from "6.IH" [OF st [symmetric] refl ev0] have t: "list_all nodesIndexed (allViews tree)"
    by (simp add: b builtIndexed_def)
  let ?res = "visitEmbeddedTemplateEnd ce (tree, n, deps, nid) vis1"
  note en = visitEmbeddedTemplateEnd_frame
    [where this = vis1 and ce = ce and tree = tree and n = n and deps = deps and nid = nid]
  obtain i where emb: "embeddedViews ?res = embeddedViews vis @ [(i, tree)]"
    using en(4) fr(4) by auto
  have nres: "nodes (view ?res) = nodes (view vis) @ [ce]"
    using nd(1) by (simp add: visitEmbeddedTemplateEnd_nodes)
  have "nodesIndexed (view ?res)"
    using "6.prems" nodesIndexed_snoc [OF _ nres nd(2)] by (simp add: indexedVisitor_def)
  moreover have "list_all nodesIndexed (subViews ?res)"
    using "6.prems" t by (simp add: indexedVisitor_def subViews_def emb)
  ultimately show ?case
    using nres nd(3) by (simp add: st b indexedVisitor_def)
next
  case (7 c ctx vis)
  then show ?case by simp
next
  case (8 c ast asts ctx vis)
  from "8.IH"(1) [OF "8.prems"] have
    h1: "indexedVisitor (visit c ast ctx vis)" and
    h2: "map sourceAstOf (nodes (view (visit c ast ctx vis))) =
           map sourceAstOf (nodes (view vis)) @ map Some (viewNodeAsts ast)"
    by simp_all
  from "8.IH"(2) [OF h1] h2 show ?case by simp
next
  case (9 c v template deps nextId)
  let ?bv = "\<lparr>view = v, targetDependencies = deps, nestedViewCount = 0,
              embeddedViews = [], nextViewId = nextId\<rparr>"
  have i0: "indexedVisitor ?bv" using "9.prems" by (simp add: indexedVisitor_def subViews_def)
  from "9.IH" [OF refl i0] show ?case
    by (simp add: builtIndexed_def buildView.simps Let_def indexedVisitor_def subViews_def)
qed

text \<open>
  C8. When the node list of the view passed to \<^verbatim>\<open>buildView\<close> is indexed by position (a
  new view has no nodes), then it is so in every view of the result: the indices of the
  nodes of a view are 0, 1, 2, ... along its node list. The node list of the built view
  is the one passed in followed by one node for each text, bound text, element and
  embedded template that the visitor of the view meets, in the order of the visit.
\<close>

theorem node_indices_positional:
  assumes "nodesIndexed v"
  shows "case buildView c v template deps nextId of
           (tree, rest) \<Rightarrow>
             list_all nodesIndexed (allViews tree) \<and>
             map sourceAstOf (nodes (treeView tree)) =
               map sourceAstOf (nodes v) @ map Some (viewNodeAstsAll template)"
  using indexing(3) [OF assms, of template c deps nextId]
  by (simp add: builtIndexed_def)


lemma allViews_head: "allViews tree = treeView tree # concat (map (\<lambda>e. allViews (snd e)) (treeEmbedded tree))"
  by (cases tree) simp

theorem node_indices_positional_example:
  "nodesIndexed (newCompileView compA False NULL_EXPR [] 0 NullElement [] 0) \<and>
   (case buildView plainCollaborators (newCompileView compA False NULL_EXPR [] 0 NullElement [] 0)
           [ElementAst ''div'' [] [] False [TextAst ''x'' None] None,
            EmbeddedTemplateAst [] [] True [TextAst ''y'' None] None] [] 1 of
      (tree, rest) \<Rightarrow>
        list_all nodesIndexed (allViews tree) \<and>
        map nodeIndexOf (nodes (treeView tree)) = [Some 0, Some 1, Some 2])"
proof -
  let ?v = "newCompileView compA False NULL_EXPR [] 0 NullElement [] 0"
  let ?t = "[ElementAst ''div'' [] [] False [TextAst ''x'' None] None,
            EmbeddedTemplateAst [] [] True [TextAst ''y'' None] None]"
  have h: "nodesIndexed ?v" by (simp add: nodesIndexed_def newCompileView_def)
  obtain tree rest where b: "buildView plainCollaborators ?v ?t [] 1 = (tree, rest)"
    by (cases "buildView plainCollaborators ?v ?t [] 1")
  from node_indices_positional [OF h, where c = plainCollaborators and template = ?t
      and deps = "[]" and nextId = 1]
  have a: "list_all nodesIndexed (allViews tree)"
    and s: "map sourceAstOf (nodes (treeView tree)) =
              map sourceAstOf (nodes ?v) @ map Some (viewNodeAstsAll ?t)"
    unfolding b prod.case by blast+
  have "length (map sourceAstOf (nodes (treeView tree))) = 3"
    unfolding s by (simp add: newCompileView_def)
  then have l: "length (nodes (treeView tree)) = 3" by simp
  have u: "[0 ..< 3] = [0, 1, 2::nat]" by code_simp
  from a have "nodesIndexed (treeView tree)"
    by (subst (asm) allViews_head) simp
  then have "map nodeIndexOf (nodes (treeView tree)) = [Some 0, Some 1, Some 2]"
    unfolding nodesIndexed_def l u by simp
  with h a show ?thesis unfolding b prod.case by blast
qed

subsection \<open>Registration\<close>

lemma nodeChain_snoc:
  "nodeChain vw p (ds @ [(i, r, a, e)]) = CompileNode (nodeChain vw p ds) vw i r a e"
  by (induction ds arbitrary: p) auto

lemma walk_chain:
  "list_all isContainerData cs \<Longrightarrow> \<not> isNgContainer p (Some vw) \<Longrightarrow>
   walkOuterContainer (Some vw) (nodeChain vw p (cs @ [leaf])) =
     nodeChain vw p [hd (cs @ [leaf])]"
proof (induction cs arbitrary: leaf rule: rev_induct)
  case Nil
  obtain i r a e where l: "leaf = (i, r, a, e)" by (metis prod_cases4)
  from Nil show ?case by (simp add: l)
next
  case (snoc x cs)
  obtain i r a e where l: "leaf = (i, r, a, e)" by (metis prod_cases4)
  obtain xi xr xa xe where x: "x = (xi, xr, xa, xe)" by (metis prod_cases4)
  from snoc.prems have cs: "list_all isContainerData cs" and cx: "isContainerData x"
    by simp_all
  have par: "nodeChain vw p (cs @ [x]) = CompileNode (nodeChain vw p cs) vw xi xr xa xe"
    by (simp add: x nodeChain_snoc)
  have "isNgContainer (nodeChain vw p (cs @ [x])) (Some vw)"
    using cx by (simp add: x nodeChain_snoc isContainerData_def)
  moreover have "nodeChain vw p ((cs @ [x]) @ [leaf]) =
      CompileNode (nodeChain vw p (cs @ [x])) vw i r a e"
    unfolding l by (rule nodeChain_snoc)
  ultimately have "walkOuterContainer (Some vw) (nodeChain vw p ((cs @ [x]) @ [leaf])) =
      walkOuterContainer (Some vw) (nodeChain vw p (cs @ [x]))"
    by simp
  also have "\<dots> = nodeChain vw p [hd (cs @ [x])]"
    by (rule snoc.IH [OF cs snoc.prems(2)])
  also have "hd (cs @ [x]) = hd ((cs @ [x]) @ [leaf])"
    by (cases cs) simp_all
  finally show ?case .
qed

lemma viewOf_chain: "viewOf (nodeChain vw p (cs @ [leaf])) = Some vw"
  by (cases leaf) (simp add: nodeChain_snoc)

text \<open>
  C2. A node below a chain of \<^verbatim>\<open>ng-container\<close> elements of its own view \<open>vw\<close> (\<open>cs\<close>,
  the outermost first, possibly empty), where the parent \<open>p\<close> of the outermost one is
  not itself such a container: the walk ends at the outermost container (at the node
  itself when there is no container), and the registration is decided by the parent \<open>p\<close>
  and the content-projection index of that outermost node alone. The expression that is
  registered is the one of the node itself (its app element when it hosts a view
  container, else its render node).
\<close>

theorem registration_by_outermost_container:
  assumes "list_all isContainerData cs" and "\<not> isNgContainer p (Some vw)"
  shows "getOuterContainerOrSelf (nodeChain vw p (cs @ [leaf])) =
           nodeChain vw p [hd (cs @ [leaf])] \<and>
         addRootNodeAndProject (nodeChain vw p (cs @ [leaf])) this =
           registerAt p (astNgContentIndex (fst (snd (snd (hd (cs @ [leaf]))))))
             (registeredUnit (nodeChain vw p (cs @ [leaf]))) this"
proof -
  obtain i r a e where h: "hd (cs @ [leaf]) = (i, r, a, e)" by (metis prod_cases4)
  have g: "getOuterContainerOrSelf (nodeChain vw p (cs @ [leaf])) = CompileNode p vw i r a e"
    unfolding getOuterContainerOrSelf_def viewOf_chain walk_chain [OF assms] h by simp
  show ?thesis
    unfolding g h
    by (simp add: addRootNodeAndProject_def g registerAt_def isRootNode_def Let_def
        split: option.splits)
qed

theorem registration_by_outermost_container_example:
  "list_all isContainerData
     [(0, ReadPropExpr THIS_EXPR ''_el_0'', containerAst None, None),
      (1, ReadPropExpr THIS_EXPR ''_el_1'', containerAst (Some 3), None)] \<and>
   \<not> isNgContainer NullElement (Some 1) \<and>
   rootNodesOrAppElements (view (addRootNodeAndProject
     (nodeChain 1 NullElement
        [(0, ReadPropExpr THIS_EXPR ''_el_0'', containerAst None, None),
         (1, ReadPropExpr THIS_EXPR ''_el_1'', containerAst (Some 3), None),
         (2, ReadPropExpr THIS_EXPR ''_text_2'', TextAst ''x'' (Some 5), None)])
     embeddedVisitor)) = [ReadPropExpr THIS_EXPR ''_text_2'']"
proof -
  let ?cs = "[(0, ReadPropExpr THIS_EXPR ''_el_0'', containerAst None, None),
      (1, ReadPropExpr THIS_EXPR ''_el_1'', containerAst (Some 3), None)]"
  let ?leaf = "(2::nat, ReadPropExpr THIS_EXPR ''_text_2'', TextAst ''x'' (Some 5), None::ElementPart option)"
  have c: "list_all isContainerData ?cs"
    by (simp add: isContainerData_def containerAst_def NG_CONTAINER_TAG_def)
  have n: "\<not> isNgContainer NullElement (Some 1)" by simp
  from registration_by_outermost_container [OF c n, where leaf = ?leaf and this = embeddedVisitor]
  have "addRootNodeAndProject (nodeChain 1 NullElement (?cs @ [?leaf])) embeddedVisitor =
      registerAt NullElement None (ReadPropExpr THIS_EXPR ''_text_2'') embeddedVisitor"
    by (simp add: containerAst_def)
  then have "rootNodesOrAppElements (view (addRootNodeAndProject
      (nodeChain 1 NullElement (?cs @ [?leaf])) embeddedVisitor)) = [ReadPropExpr THIS_EXPR ''_text_2'']"
    by (simp add: registerAt_def embeddedVisitor_def newCompileView_def getViewType_def)
  with c n show ?thesis by simp
qed

subsection \<open>Attribute statements\<close>

lemma addRootNodeAndProject_createMethod:
  "createMethod (view (addRootNodeAndProject node this)) = createMethod (view this)"
  by (simp add: addRootNodeAndProject_def addContentNode_def Let_def
      split: CompileNode.splits option.splits)

lemma elementAttributeStmts_foldl:
  "foldl (\<lambda>stmts entry.
            if name \<noteq> NG_CONTAINER_TAG then stmts @ [setElementAttributeStmt rn entry]
            else stmts) acc entries =
   acc @ (if name = NG_CONTAINER_TAG then [] else map (setElementAttributeStmt rn) entries)"
  by (induction entries arbitrary: acc) auto

lemma elementAttributeStmts_eq:
  "elementAttributeStmts name rn entries =
     (if name = NG_CONTAINER_TAG then [] else map (setElementAttributeStmt rn) entries)"
  unfolding elementAttributeStmts_def elementAttributeStmts_foldl by simp

lemma merged_strings_sorted:
  "sorted (map entryString (mergeHtmlAndDirectiveAttrs htmlAttrs directives))"
  by (simp add: mergeHtmlAndDirectiveAttrs_def Let_def mapToKeyValueArray_eq)

lemma merged_names_distinct:
  "distinct (map fst (mergeHtmlAndDirectiveAttrs htmlAttrs directives))"
proof -
  let ?r0 = "foldl (\<lambda>result (key, v). setProperty key v result) [] htmlAttrs"
  let ?r1 = "foldl (\<lambda>result directiveMeta.
                foldl mergeHostAttribute result (hostAttributes directiveMeta)) ?r0 directives"
  have d0: "distinct (map fst ?r0)" by (rule foldl_setProperty_distinct) simp
  have d1: "distinct (map fst ?r1)" by (rule foldl_directives_distinct [OF d0])
  then show ?thesis
    by (simp add: mergeHtmlAndDirectiveAttrs_def Let_def mapToKeyValueArray_eq
        distinct_map_sort_key)
qed

text \<open>
  Where every character of two names is above the comma, the order of the strings
  \<^verbatim>\<open>name,value\<close> is the order of the names.
\<close>

lemma entryString_le_names:
  "\<forall>ch \<in> set n1. CHR '','' < ch \<Longrightarrow> \<forall>ch \<in> set n2. CHR '','' < ch \<Longrightarrow>
   n1 @ CHR '','' # v1 \<le> n2 @ CHR '','' # v2 \<Longrightarrow> n1 \<le> n2"
proof (induction n1 arbitrary: n2)
  case Nil
  show ?case by simp
next
  case (Cons a n1)
  show ?case
  proof (cases n2)
    case Nil
    with Cons.prems(1,3) show ?thesis by auto
  next
    case (Cons b n2')
    with Cons.prems Cons.IH [of n2'] show ?thesis by auto
  qed
qed

lemma sorted_strings_names:
  assumes "sorted (map entryString l)"
    and "\<forall>entry \<in> set l. \<forall>ch \<in> set (fst entry). CHR '','' < ch"
  shows "sorted (map fst l)"
proof -
  from assms(1) have "sorted_wrt (\<lambda>x y. entryString x \<le> entryString y) l"
    by (simp add: sorted_map)
  then have "sorted_wrt (\<lambda>x y. fst x \<le> fst y) l"
  proof (rule sorted_wrt_mono_rel [rotated])
    fix x y
    assume "x \<in> set l" and "y \<in> set l" and "entryString x \<le> entryString y"
    with assms(2) show "fst x \<le> fst y"
      using entryString_le_names [of "fst x" "fst y" "snd x" "snd y"]
      by (simp add: entryString_def)
  qed
  then show ?thesis by (simp add: sorted_map)
qed

lemma visitElementStart_createMethod:
  "\<exists>createRenderNodeExpr.
     createMethod (view (snd (snd (visitElementStart c name attrs directives hasVc children nci
                                     parent this)))) =
       createMethod (view this) @
       ExpressionStatement
         (WritePropExpr THIS_EXPR (''_el_'' @ string_of_nat (length (nodes (view this))))
            createRenderNodeExpr) #
       elementAttributeStmts name
         (ReadPropExpr THIS_EXPR (''_el_'' @ string_of_nat (length (nodes (view this)))))
         (mergeHtmlAndDirectiveAttrs (readHtmlAttrs attrs) directives) @
       (case find isComponent directives of
          None \<Rightarrow> []
        | Some cmp \<Rightarrow>
            [DeclareVarStmt (''compView_'' @ string_of_nat (length (nodes (view this))))
               (InvokeFunctionExpr (ExternalExpr (getViewFactoryName c cmp 0))
                  [ViewProperties_viewUtils, elementInjector c (length (nodes (view this))),
                   newAppElement c (length (nodes (view this)))])])"
  by (cases "find isComponent directives")
     (simp_all add: visitElementStart_def Let_def addRootNodeAndProject_createMethod addStmt_def)

text \<open>
  C7, as the code has it. The statements that \<^verbatim>\<open>visitElement\<close> appends to the create
  method before it visits the children are: the creation of the element; one
  \<^verbatim>\<open>setElementAttribute\<close> statement on the element for each merged attribute, with its
  name and its value, in the order of the merged array, and none at all for an
  \<^verbatim>\<open>ng-container\<close>; and the declaration of the component view if a directive is a
  component. The merged array has one entry for each name and is in ascending order of
  the strings \<^verbatim>\<open>name,value\<close> of its entries. This is the strictly ascending order of the
  names if every character of every name is above the comma.
\<close>

theorem attribute_statements_ordered:
  "\<exists>createRenderNodeExpr.
     createMethod (view (snd (snd (visitElementStart c name attrs directives hasVc children nci
                                     parent this)))) =
       createMethod (view this) @
       ExpressionStatement
         (WritePropExpr THIS_EXPR (''_el_'' @ string_of_nat (length (nodes (view this))))
            createRenderNodeExpr) #
       (if name = NG_CONTAINER_TAG then []
        else map (\<lambda>entry.
                    ExpressionStatement
                      (InvokeMethodExpr ViewProperties_renderer ''setElementAttribute''
                         [ReadPropExpr THIS_EXPR
                            (''_el_'' @ string_of_nat (length (nodes (view this)))),
                          LiteralExpr (LitString (fst entry)),
                          LiteralExpr (LitString (snd entry))]))
               (mergeHtmlAndDirectiveAttrs (readHtmlAttrs attrs) directives)) @
       (case find isComponent directives of
          None \<Rightarrow> []
        | Some cmp \<Rightarrow>
            [DeclareVarStmt (''compView_'' @ string_of_nat (length (nodes (view this))))
               (InvokeFunctionExpr (ExternalExpr (getViewFactoryName c cmp 0))
                  [ViewProperties_viewUtils, elementInjector c (length (nodes (view this))),
                   newAppElement c (length (nodes (view this)))])]) \<and>
     sorted (map (\<lambda>entry. fst entry @ '','' @ snd entry)
               (mergeHtmlAndDirectiveAttrs (readHtmlAttrs attrs) directives)) \<and>
     distinct (map fst (mergeHtmlAndDirectiveAttrs (readHtmlAttrs attrs) directives)) \<and>
     ((\<forall>entry \<in> set (mergeHtmlAndDirectiveAttrs (readHtmlAttrs attrs) directives).
         \<forall>ch \<in> set (fst entry). CHR '','' < ch) \<longrightarrow>
      sorted_wrt (<) (map fst (mergeHtmlAndDirectiveAttrs (readHtmlAttrs attrs) directives)))"
proof -
  let ?m = "mergeHtmlAndDirectiveAttrs (readHtmlAttrs attrs) directives"
  have s: "sorted (map (\<lambda>entry. fst entry @ '','' @ snd entry) ?m)"
    using merged_strings_sorted [of "readHtmlAttrs attrs" directives]
    by (simp add: entryString_def [abs_def])
  have d: "distinct (map fst ?m)" by (rule merged_names_distinct)
  have n: "(\<forall>entry \<in> set ?m. \<forall>ch \<in> set (fst entry). CHR '','' < ch) \<longrightarrow>
      sorted_wrt (<) (map fst ?m)"
    using sorted_strings_names [OF merged_strings_sorted, of "readHtmlAttrs attrs" directives] d
    by (simp add: strict_sorted_iff)
  have e: "elementAttributeStmts name
         (ReadPropExpr THIS_EXPR (''_el_'' @ string_of_nat (length (nodes (view this))))) ?m =
       (if name = NG_CONTAINER_TAG then []
        else map (\<lambda>entry.
                    ExpressionStatement
                      (InvokeMethodExpr ViewProperties_renderer ''setElementAttribute''
                         [ReadPropExpr THIS_EXPR
                            (''_el_'' @ string_of_nat (length (nodes (view this)))),
                          LiteralExpr (LitString (fst entry)),
                          LiteralExpr (LitString (snd entry))])) ?m)"
    unfolding elementAttributeStmts_eq by (simp add: setElementAttributeStmt_def [abs_def])
  from visitElementStart_createMethod [of c name attrs directives hasVc children nci parent this]
  show ?thesis
    unfolding e using s d n by blast
qed

text \<open>
  The theorem at a \<open>div\<close> with the attributes \<open>title\<close> and \<open>id\<close> and a directive whose
  host attributes are \<open>role\<close> and \<open>class\<close>, in a view without nodes.
\<close>

theorem attribute_statements_ordered_example:
  "createMethod (view (snd (snd (visitElementStart plainCollaborators ''div''
       [\<lparr>attr_name = ''title'', attr_value = ''t''\<rparr>, \<lparr>attr_name = ''id'', attr_value = ''x''\<rparr>]
       [plainDirective\<lparr>hostAttributes := [(''role'', ''button''), (''class'', ''b'')]\<rparr>]
       False [] None NullElement embeddedVisitor)))) =
     [ExpressionStatement
        (WritePropExpr THIS_EXPR ''_el_0''
           (InvokeMethodExpr ViewProperties_renderer ''createElement''
              [NULL_EXPR, LiteralExpr (LitString ''div''), NULL_EXPR])),
      ExpressionStatement
        (InvokeMethodExpr ViewProperties_renderer ''setElementAttribute''
           [ReadPropExpr THIS_EXPR ''_el_0'', LiteralExpr (LitString ''class''),
            LiteralExpr (LitString ''b'')]),
      ExpressionStatement
        (InvokeMethodExpr ViewProperties_renderer ''setElementAttribute''
           [ReadPropExpr THIS_EXPR ''_el_0'', LiteralExpr (LitString ''id''),
            LiteralExpr (LitString ''x'')]),
      ExpressionStatement
        (InvokeMethodExpr ViewProperties_renderer ''setElementAttribute''
           [ReadPropExpr THIS_EXPR ''_el_0'', LiteralExpr (LitString ''role''),
            LiteralExpr (LitString ''button'')]),
      ExpressionStatement
        (InvokeMethodExpr ViewProperties_renderer ''setElementAttribute''
           [ReadPropExpr THIS_EXPR ''_el_0'', LiteralExpr (LitString ''title''),
            LiteralExpr (LitString ''t'')])] \<and>
   sorted_wrt (<) [''class'', ''id'', ''role'', ''title'']"
proof -
  let ?attrs = "[\<lparr>attr_name = ''title'', attr_value = ''t''\<rparr>,
                 \<lparr>attr_name = ''id'', attr_value = ''x''\<rparr>]"
  let ?ds = "[plainDirective\<lparr>hostAttributes := [(''role'', ''button''), (''class'', ''b'')]\<rparr>]"
  let ?m = "mergeHtmlAndDirectiveAttrs (readHtmlAttrs ?attrs) ?ds"
  have e: "?m = [(''class'', ''b''), (''id'', ''x''), (''role'', ''button''), (''title'', ''t'')]"
    by code_simp
  have h: "\<forall>entry \<in> set ?m. \<forall>ch \<in> set (fst entry). CHR '','' < ch"
    unfolding e by (simp add: less_char_def)
  from attribute_statements_ordered [where attrs = ?attrs and directives = ?ds]
  have "(\<forall>entry \<in> set ?m. \<forall>ch \<in> set (fst entry). CHR '','' < ch) \<longrightarrow>
      sorted_wrt (<) (map fst ?m)"
    by blast
  with h have "sorted_wrt (<) (map fst ?m)" by blast
  then have o: "sorted_wrt (<) [''class'', ''id'', ''role'', ''title'']"
    unfolding e by simp
  have x: "createMethod (view (snd (snd (visitElementStart plainCollaborators ''div''
       ?attrs ?ds False [] None NullElement embeddedVisitor)))) =
     [ExpressionStatement
        (WritePropExpr THIS_EXPR ''_el_0''
           (InvokeMethodExpr ViewProperties_renderer ''createElement''
              [NULL_EXPR, LiteralExpr (LitString ''div''), NULL_EXPR])),
      ExpressionStatement
        (InvokeMethodExpr ViewProperties_renderer ''setElementAttribute''
           [ReadPropExpr THIS_EXPR ''_el_0'', LiteralExpr (LitString ''class''),
            LiteralExpr (LitString ''b'')]),
      ExpressionStatement
        (InvokeMethodExpr ViewProperties_renderer ''setElementAttribute''
           [ReadPropExpr THIS_EXPR ''_el_0'', LiteralExpr (LitString ''id''),
            LiteralExpr (LitString ''x'')]),
      ExpressionStatement
        (InvokeMethodExpr ViewProperties_renderer ''setElementAttribute''
           [ReadPropExpr THIS_EXPR ''_el_0'', LiteralExpr (LitString ''role''),
            LiteralExpr (LitString ''button'')]),
      ExpressionStatement
        (InvokeMethodExpr ViewProperties_renderer ''setElementAttribute''
           [ReadPropExpr THIS_EXPR ''_el_0'', LiteralExpr (LitString ''title''),
            LiteralExpr (LitString ''t'')])]"
    by code_simp
  from x o show ?thesis by (rule conjI)
qed

text \<open>
  The order by attribute name that the spec states fails at a \<open>div\<close> with the attributes \<open>a\<close> and
  \<open>a$b\<close>: the statement for \<open>a$b\<close> comes first, since the string \<^verbatim>\<open>a$b,2\<close> is below
  the string \<^verbatim>\<open>a,1\<close>, and the names of the two statements are not in ascending order.
\<close>

theorem attribute_names_not_ascending:
  "createMethod (view (snd (snd (visitElementStart plainCollaborators ''div''
       [\<lparr>attr_name = ''a'', attr_value = ''1''\<rparr>, \<lparr>attr_name = ''a$b'', attr_value = ''2''\<rparr>]
       [] False [] None NullElement embeddedVisitor)))) =
     [ExpressionStatement
        (WritePropExpr THIS_EXPR ''_el_0''
           (InvokeMethodExpr ViewProperties_renderer ''createElement''
              [NULL_EXPR, LiteralExpr (LitString ''div''), NULL_EXPR])),
      ExpressionStatement
        (InvokeMethodExpr ViewProperties_renderer ''setElementAttribute''
           [ReadPropExpr THIS_EXPR ''_el_0'', LiteralExpr (LitString ''a$b''),
            LiteralExpr (LitString ''2'')]),
      ExpressionStatement
        (InvokeMethodExpr ViewProperties_renderer ''setElementAttribute''
           [ReadPropExpr THIS_EXPR ''_el_0'', LiteralExpr (LitString ''a''),
            LiteralExpr (LitString ''1'')])] \<and>
   \<not> sorted_wrt (<) [''a$b'', ''a'']"
proof (rule conjI)
  show "createMethod (view (snd (snd (visitElementStart plainCollaborators ''div''
       [\<lparr>attr_name = ''a'', attr_value = ''1''\<rparr>, \<lparr>attr_name = ''a$b'', attr_value = ''2''\<rparr>]
       [] False [] None NullElement embeddedVisitor)))) =
     [ExpressionStatement
        (WritePropExpr THIS_EXPR ''_el_0''
           (InvokeMethodExpr ViewProperties_renderer ''createElement''
              [NULL_EXPR, LiteralExpr (LitString ''div''), NULL_EXPR])),
      ExpressionStatement
        (InvokeMethodExpr ViewProperties_renderer ''setElementAttribute''
           [ReadPropExpr THIS_EXPR ''_el_0'', LiteralExpr (LitString ''a$b''),
            LiteralExpr (LitString ''2'')]),
      ExpressionStatement
        (InvokeMethodExpr ViewProperties_renderer ''setElementAttribute''
           [ReadPropExpr THIS_EXPR ''_el_0'', LiteralExpr (LitString ''a''),
            LiteralExpr (LitString ''1'')])]"
    by code_simp
  show "\<not> sorted_wrt (<) [''a$b'', ''a'']"
    by simp
qed


section \<open>Properties of views and queries\<close>

lemma findLocal_find:
  "findLocal name vw =
     (case find (\<lambda>w. map_of (refLocals w) name \<noteq> None) (declarationChain vw) of
        None \<Rightarrow> None
      | Some w \<Rightarrow> map_option (\<lambda>e. (e, w)) (map_of (refLocals w) name))"
proof (induction name vw rule: findLocal.induct)
  case (1 name ident cn ls de)
  show ?case
  proof (cases "map_of ls name")
    case None
    show ?thesis
    proof (cases de)
      case NullElementRef
      with None show ?thesis by simp
    next
      case (CompileElementRef declView appEl)
      with None "1.IH" [OF None CompileElementRef] show ?thesis by simp
    qed
  next
    case (Some result)
    then show ?thesis by simp
  qed
qed

text \<open>
  C6. \<^verbatim>\<open>getLocal\<close> returns the reserved event variable for the reserved name, whatever
  the locals of the views bind. For any other name it finds the first view, from this
  view outward along the declaration elements, whose locals bind the name, and returns
  what \<^verbatim>\<open>getPropertyInView\<close> makes of that binding for this view and the view found;
  when no view of the chain binds the name it returns null and raises nothing.
\<close>

theorem getLocal_resolves:
  "getLocal gpiv this ''$event'' = Inr (Some (ReadVarExpr ''$event'')) \<and>
   getLocal gpiv this name =
     (if name = ''$event'' then Inr (Some (ReadVarExpr ''$event''))
      else
        (case find (\<lambda>w. map_of (refLocals w) name \<noteq> None) (declarationChain this) of
           None \<Rightarrow> Inr None
         | Some w \<Rightarrow>
             (case map_of (refLocals w) name of
                None \<Rightarrow> Inr None
              | Some e \<Rightarrow> map_sum id Some (gpiv e this w))))"
  by (auto simp: getLocal_def EventHandlerVars_event_def findLocal_find
      split: option.splits sum.splits)


theorem getLocal_resolves_example:
  "getLocal plainGetPropertyInView eventShadowingViewRef ''$event'' =
     Inr (Some (ReadVarExpr ''$event'')) \<and>
   getLocal plainGetPropertyInView eventShadowingViewRef ''outer'' =
     Inr (Some (InvokeFunctionExpr (ExternalExpr ''getPropertyInView'')
            [ReadPropExpr THIS_EXPR ''_outer'', LiteralExpr (LitNat 2), LiteralExpr (LitNat 0)])) \<and>
   getLocal plainGetPropertyInView eventShadowingViewRef ''missing'' = Inr None"
proof -
  note t = getLocal_resolves [where gpiv = plainGetPropertyInView and this = eventShadowingViewRef]
  have 1: "getLocal plainGetPropertyInView eventShadowingViewRef ''$event'' =
     Inr (Some (ReadVarExpr ''$event''))"
    using t [where name = "''x''"] by blast
  have 2: "getLocal plainGetPropertyInView eventShadowingViewRef ''outer'' =
     Inr (Some (InvokeFunctionExpr (ExternalExpr ''getPropertyInView'')
            [ReadPropExpr THIS_EXPR ''_outer'', LiteralExpr (LitNat 2), LiteralExpr (LitNat 0)]))"
    using t [where name = "''outer''"]
    by (simp add: eventShadowingViewRef_def embeddedViewRef_def rootViewRef_def
        plainGetPropertyInView_def)
  have 3: "getLocal plainGetPropertyInView eventShadowingViewRef ''missing'' = Inr None"
    using t [where name = "''missing''"]
    by (simp add: eventShadowingViewRef_def embeddedViewRef_def rootViewRef_def)
  from 1 2 3 show ?thesis by blast
qed

text \<open>
  C10. For no values and for no entries the shared constant is returned and the view is
  left as it was: no counter is incremented and \<^verbatim>\<open>createPureProxy\<close> is not called. A
  literal with at least one element goes through \<^verbatim>\<open>createPureProxy\<close> on the view with
  the incremented counter, and the result calls the proxy named by the old counter.
\<close>

theorem empty_literals_shared:
  "createLiteralArray cpp [] this = Inr (ExternalExpr ''EMPTY_ARRAY'', this) \<and>
   createLiteralMap cpp [] this = Inr (ExternalExpr ''EMPTY_MAP'', this) \<and>
   createLiteralArray cpp (x # xs) this =
     map_sum id (Pair (InvokeFunctionExpr
                         (ReadPropExpr THIS_EXPR (''_arr_'' @ string_of_nat (literalArrayCount this)))
                         (x # xs)))
       (cpp (FunctionExpr (proxyParamNames (length (x # xs)))
               [ReturnStatement (LiteralArrayExpr
                  (map ReadVarExpr (proxyParamNames (length (x # xs)))))])
          (length (x # xs))
          (ReadPropExpr THIS_EXPR (''_arr_'' @ string_of_nat (literalArrayCount this)))
          (this\<lparr>literalArrayCount := literalArrayCount this + 1\<rparr>)) \<and>
   createLiteralMap cpp (y # ys) this =
     map_sum id (Pair (InvokeFunctionExpr
                         (ReadPropExpr THIS_EXPR (''_map_'' @ string_of_nat (literalMapCount this)))
                         (map snd (y # ys))))
       (cpp (FunctionExpr (proxyParamNames (length (y # ys)))
               [ReturnStatement (LiteralMapExpr
                  (map2 (\<lambda>entry paramName. (fst entry, ReadVarExpr paramName)) (y # ys)
                     (proxyParamNames (length (y # ys)))))])
          (length (y # ys))
          (ReadPropExpr THIS_EXPR (''_map_'' @ string_of_nat (literalMapCount this)))
          (this\<lparr>literalMapCount := literalMapCount this + 1\<rparr>))"
  by (simp add: createLiteralArray_def createLiteralMap_def Let_def split: sum.splits)

theorem empty_literals_shared_example:
  "createLiteralArray plainCreatePureProxy [] (newCompileView compA False NULL_EXPR [] 0 NullElement [] 0) =
     Inr (ExternalExpr ''EMPTY_ARRAY'', newCompileView compA False NULL_EXPR [] 0 NullElement [] 0) \<and>
   createLiteralMap plainCreatePureProxy [] (newCompileView compA False NULL_EXPR [] 0 NullElement [] 0) =
     Inr (ExternalExpr ''EMPTY_MAP'', newCompileView compA False NULL_EXPR [] 0 NullElement [] 0) \<and>
   map_sum id (literalArrayCount \<circ> snd)
     (createLiteralArray plainCreatePureProxy [LiteralExpr (LitNat 7)]
        (newCompileView compA False NULL_EXPR [] 0 NullElement [] 0)) = Inr 1"
proof -
  note t = empty_literals_shared [where cpp = plainCreatePureProxy
      and this = "newCompileView compA False NULL_EXPR [] 0 NullElement [] 0" and x = "LiteralExpr (LitNat 7)"
      and xs = "[]" and y = "(''k'', LiteralExpr (LitNat 7))" and ys = "[]"]
  have 3: "map_sum id (literalArrayCount \<circ> snd)
     (createLiteralArray plainCreatePureProxy [LiteralExpr (LitNat 7)]
        (newCompileView compA False NULL_EXPR [] 0 NullElement [] 0)) = Inr 1"
    using t by (simp add: plainCreatePureProxy_def addStmt_def newCompileView_def)
  from t 3 show ?thesis by blast
qed


lemma entryContainsNestedView_isNested: "entryContainsNestedView = isNested"
proof
  fix e show "entryContainsNestedView e = isNested e" by (cases e) simp_all
qed

lemma isStatic_iff: "isStatic this = (\<not> containsNestedView (query_values this))"
  by (cases "query_values this") (simp add: isStatic_def entryContainsNestedView_isNested)

lemma createEntryValues_static:
  "\<not> list_ex isNested entries \<Longrightarrow>
   createEntryValues rv entries = Inr (concat (map entryExpr entries))"
proof (induction entries)
  case Nil
  then show ?case by simp
next
  case (Cons e es)
  then show ?case by (cases e) simp_all
qed

text \<open>
  C3. A query declared \<open>first\<close> whose value tree holds no subtree of a nested view: its
  update statements, over the plain values in order, are appended to the static method,
  and nothing raises. Any other query: the same statements are wrapped in a conditional on
  the dirty flag of the query list and appended to the dynamic method, when the values
  can be created.
\<close>

theorem first_static_query_unconditional:
  "(first (meta this) \<and> \<not> containsNestedView (query_values this) \<longrightarrow>
      afterChildren rv this s d =
        Inr (s @ updateStmts this (concat (map entryExpr (entriesOf (query_values this)))), d)) \<and>
   (\<not> (first (meta this) \<and> \<not> containsNestedView (query_values this)) \<longrightarrow>
      afterChildren rv this s d =
        (case createQueryValues rv (query_values this) of
           Inl err \<Rightarrow> Inl err
         | Inr vals \<Rightarrow>
             Inr (s, d @ [IfStmt (ReadPropExpr (queryList this) ''dirty'')
                            (updateStmts this vals)])))"
proof (intro conjI impI)
  assume a: "first (meta this) \<and> \<not> containsNestedView (query_values this)"
  obtain vw entries where q: "query_values this = ViewQueryValues vw entries"
    by (cases "query_values this")
  from a have st: "isStatic this" by (simp add: isStatic_iff)
  then have "\<not> list_ex isNested entries" by (simp add: isStatic_def q)
  then have "createQueryValues rv (query_values this) = Inr (concat (map entryExpr entries))"
    by (simp add: q createEntryValues_static)
  then show "afterChildren rv this s d =
      Inr (s @ updateStmts this (concat (map entryExpr (entriesOf (query_values this)))), d)"
    using a st by (simp add: afterChildren_def q)
next
  assume a: "\<not> (first (meta this) \<and> \<not> containsNestedView (query_values this))"
  then have "\<not> (first (meta this) \<and> isStatic this)" by (simp add: isStatic_iff)
  then show "afterChildren rv this s d =
      (case createQueryValues rv (query_values this) of
         Inl err \<Rightarrow> Inl err
       | Inr vals \<Rightarrow>
           Inr (s, d @ [IfStmt (ReadPropExpr (queryList this) ''dirty'')
                          (updateStmts this vals)]))"
    unfolding afterChildren_def by (auto split: sum.splits)
qed

theorem first_static_query_unconditional_example:
  "first (meta sampleQuery) \<and> \<not> containsNestedView (query_values sampleQuery) \<and>
   afterChildren plainReplaceVar sampleQuery [] [] =
     Inr ([ExpressionStatement (InvokeMethodExpr (ReadPropExpr THIS_EXPR ''_viewQuery_Child_0'')
             ''reset'' [LiteralArrayExpr []]),
           ExpressionStatement (WritePropExpr (ReadPropExpr THIS_EXPR ''context'') ''child''
             (ReadPropExpr (ReadPropExpr THIS_EXPR ''_viewQuery_Child_0'') ''first''))], []) \<and>
   afterChildren plainReplaceVar (sampleQuery\<lparr>meta := \<lparr>first = False, propertyName = ''child''\<rparr>\<rparr>)
       [] [] =
     Inr ([], [IfStmt (ReadPropExpr (ReadPropExpr THIS_EXPR ''_viewQuery_Child_0'') ''dirty'')
          [ExpressionStatement (InvokeMethodExpr (ReadPropExpr THIS_EXPR ''_viewQuery_Child_0'')
             ''reset'' [LiteralArrayExpr []]),
           ExpressionStatement (WritePropExpr (ReadPropExpr THIS_EXPR ''context'') ''child''
             (ReadPropExpr THIS_EXPR ''_viewQuery_Child_0'')),
           ExpressionStatement (InvokeMethodExpr (ReadPropExpr THIS_EXPR ''_viewQuery_Child_0'')
             ''notifyOnChanges'' [])]])"
proof -
  have h: "first (meta sampleQuery) \<and> \<not> containsNestedView (query_values sampleQuery)"
    by (simp add: sampleQuery_def)
  have 1: "afterChildren plainReplaceVar sampleQuery [] [] =
     Inr ([ExpressionStatement (InvokeMethodExpr (ReadPropExpr THIS_EXPR ''_viewQuery_Child_0'')
             ''reset'' [LiteralArrayExpr []]),
           ExpressionStatement (WritePropExpr (ReadPropExpr THIS_EXPR ''context'') ''child''
             (ReadPropExpr (ReadPropExpr THIS_EXPR ''_viewQuery_Child_0'') ''first''))], [])"
    using first_static_query_unconditional
      [where this = sampleQuery and rv = plainReplaceVar and s = "[]" and d = "[]"] h
    by (simp add: sampleQuery_def updateStmts_def)
  let ?q = "sampleQuery\<lparr>meta := \<lparr>first = False, propertyName = ''child''\<rparr>\<rparr>"
  have 2: "afterChildren plainReplaceVar ?q [] [] =
     Inr ([], [IfStmt (ReadPropExpr (ReadPropExpr THIS_EXPR ''_viewQuery_Child_0'') ''dirty'')
          [ExpressionStatement (InvokeMethodExpr (ReadPropExpr THIS_EXPR ''_viewQuery_Child_0'')
             ''reset'' [LiteralArrayExpr []]),
           ExpressionStatement (WritePropExpr (ReadPropExpr THIS_EXPR ''context'') ''child''
             (ReadPropExpr THIS_EXPR ''_viewQuery_Child_0'')),
           ExpressionStatement (InvokeMethodExpr (ReadPropExpr THIS_EXPR ''_viewQuery_Child_0'')
             ''notifyOnChanges'' [])]])"
    by (simp add: afterChildren_def isStatic_def sampleQuery_def updateStmts_def)
  from h 1 2 show ?thesis by blast
qed



lemma walkToQueryView_acc_all:
  fixes vw :: CompileViewRef and de :: CompileElementRef
  shows "\<forall>acc. walkToQueryView owner vw acc = walkToQueryView owner vw [] @ acc"
    and "\<forall>dv ae. de = CompileElementRef dv ae \<longrightarrow>
           (\<forall>acc. walkToQueryView owner dv acc = walkToQueryView owner dv [] @ acc)"
proof (induction vw and de)
  case (CompileViewRef ident cn ls de)
  show ?case
  proof (cases de)
    case NullElementRef
    then show ?thesis by simp
  next
    case (CompileElementRef dv ae)
    with CompileViewRef.IH have
      ih: "\<And>acc. walkToQueryView owner dv acc = walkToQueryView owner dv [] @ acc"
      by blast
    show ?thesis
    proof
      fix acc
      let ?x = "(CompileElementRef dv ae, Some (CompileViewRef ident cn ls de))"
      show "walkToQueryView owner (CompileViewRef ident cn ls de) acc =
              walkToQueryView owner (CompileViewRef ident cn ls de) [] @ acc"
      proof (cases "ident = owner")
        case True
        then show ?thesis by simp
      next
        case False
        have "walkToQueryView owner (CompileViewRef ident cn ls de) acc =
                walkToQueryView owner dv (?x # acc)"
          using False CompileElementRef by simp
        also have "\<dots> = walkToQueryView owner dv [] @ (?x # acc)" by (rule ih)
        also have "\<dots> = (walkToQueryView owner dv [] @ [?x]) @ acc" by simp
        also have "walkToQueryView owner dv [] @ [?x] = walkToQueryView owner dv [?x]"
          by (rule ih [symmetric])
        also have "\<dots> = walkToQueryView owner (CompileViewRef ident cn ls de) []"
          using False CompileElementRef by simp
        finally show ?thesis .
      qed
    qed
  qed
next
  case NullElementRef
  then show ?case by simp
next
  case (CompileElementRef x1 x2)
  show ?case
  proof (intro allI impI)
    fix dv ae acc
    assume "CompileElementRef x1 x2 = CompileElementRef dv ae"
    then have e: "x1 = dv" by simp
    from CompileElementRef.IH
    show "walkToQueryView owner dv acc = walkToQueryView owner dv [] @ acc"
      unfolding e by (rule spec)
  qed
qed

lemma walkToQueryView_empty_iff:
  "(walkToQueryView owner vw [] = []) = (refId vw = owner)"
proof (cases vw)
  case (CompileViewRef ident cn ls de)
  show ?thesis
  proof (cases de)
    case NullElementRef
    with CompileViewRef show ?thesis by simp
  next
    case (CompileElementRef declView appEl)
    let ?x = "(CompileElementRef declView appEl, Some (CompileViewRef ident cn ls de))"
    have "walkToQueryView owner declView [?x] = walkToQueryView owner declView [] @ [?x]"
      using walkToQueryView_acc_all(1) [of owner declView] by blast
    then have "walkToQueryView owner declView [?x] \<noteq> []" by simp
    with CompileViewRef CompileElementRef show ?thesis by simp
  qed
qed


lemma createQueryValues_expanded:
  "viewsDeclared values \<Longrightarrow> createQueryValues rv values = Inr (expandedValues rv values)"
  "entriesDeclared entries \<Longrightarrow> createEntryValues rv entries = Inr (expandedEntries rv entries)"
  "entryDeclared entry \<Longrightarrow> createEntryValue rv entry = Inr (expandedEntry rv entry)"
proof (induction rv "values" and rv entries and rv entry
    rule: createQueryValues_createEntryValues_createEntryValue.induct)
  case (1 rv vw entries)
  then show ?case by simp
next
  case (2 rv)
  show ?case by simp
next
  case (3 rv entry entries)
  from "3.prems" have e: "entryDeclared entry" and es: "entriesDeclared entries"
    by simp_all
  from "3.IH"(1) [OF e] have 1: "createEntryValue rv entry = Inr (expandedEntry rv entry)" .
  from "3.IH"(2) [OF 1 es] have 2: "createEntryValues rv entries = Inr (expandedEntries rv entries)" .
  show ?case by (simp add: 1 2)
next
  case (4 rv e)
  show ?case by simp
next
  case (5 rv nested)
  from "5.prems" have d: "subtreeDeclaration nested \<noteq> None" and v: "viewsDeclared nested"
    by simp_all
  from "5.IH" [OF v] have q: "createQueryValues rv nested = Inr (expandedValues rv nested)" .
  from d obtain ident cn ls dv appEl entries where
    n: "nested = ViewQueryValues (Some (CompileViewRef ident cn ls (CompileElementRef dv appEl)))
          entries"
    by (cases nested rule: subtreeDeclaration.cases) simp_all
  from q show ?case
    unfolding n by (simp add: mapNestedViews_def)
qed

text \<open>
  C4. \<^verbatim>\<open>addValue\<close> appends the statement that calls \<^verbatim>\<open>setDirty\<close> on the query-list
  expression, as the originating view sees it, to the dirty-parent-queries method of the
  originating view exactly when the path of declaration elements is not empty, which is
  when the originating view is not the view of the query. \<^verbatim>\<open>afterChildren\<close> resets the
  query list to the flattened value tree, in which every subtree of a nested view is a
  call of \<^verbatim>\<open>mapNestedViews\<close> on the app element of the element that declares the nested
  view, with a function of the nested view instance that returns the values of the
  subtree.
\<close>

theorem addValue_dirty_and_nested:
  "addValue gpiv this v originView dirty =
     (case gpiv (queryList this) originView (query_view this) of
        Inl err \<Rightarrow> Inl err
      | Inr queryListForDirtyExpr \<Rightarrow>
          Inr (this\<lparr>query_values :=
                 insertValue (walkToQueryView (refId (query_view this)) originView []) v
                   (query_values this)\<rparr>,
               if walkToQueryView (refId (query_view this)) originView [] = [] then dirty
               else dirty @
                 [ExpressionStatement (InvokeMethodExpr queryListForDirtyExpr ''setDirty'' [])])) \<and>
   (walkToQueryView (refId (query_view this)) originView [] = []) =
     (refId originView = refId (query_view this)) \<and>
   (viewsDeclared (query_values this) \<longrightarrow>
      (\<exists>rest.
         afterChildren rv this targetStaticMethod targetDynamicMethod =
           (if first (meta this) \<and> isStatic this
            then Inr (targetStaticMethod @
                      ExpressionStatement (InvokeMethodExpr (queryList this) ''reset''
                        [LiteralArrayExpr (expandedValues rv (query_values this))]) # rest,
                      targetDynamicMethod)
            else Inr (targetStaticMethod,
                      targetDynamicMethod @
                        [IfStmt (ReadPropExpr (queryList this) ''dirty'')
                           (ExpressionStatement (InvokeMethodExpr (queryList this) ''reset''
                              [LiteralArrayExpr (expandedValues rv (query_values this))]) #
                            rest)]))))"
proof -
  have w: "(walkToQueryView (refId (query_view this)) originView [] = []) =
      (refId originView = refId (query_view this))"
    by (rule walkToQueryView_empty_iff)
  have a: "addValue gpiv this v originView dirty =
     (case gpiv (queryList this) originView (query_view this) of
        Inl err \<Rightarrow> Inl err
      | Inr queryListForDirtyExpr \<Rightarrow>
          Inr (this\<lparr>query_values :=
                 insertValue (walkToQueryView (refId (query_view this)) originView []) v
                   (query_values this)\<rparr>,
               if walkToQueryView (refId (query_view this)) originView [] = [] then dirty
               else dirty @
                 [ExpressionStatement (InvokeMethodExpr queryListForDirtyExpr ''setDirty'' [])]))"
    by (simp add: addValue_def Let_def setDirtyStmt_def split: sum.splits)
  have c: "viewsDeclared (query_values this) \<longrightarrow>
      (\<exists>rest.
         afterChildren rv this targetStaticMethod targetDynamicMethod =
           (if first (meta this) \<and> isStatic this
            then Inr (targetStaticMethod @
                      ExpressionStatement (InvokeMethodExpr (queryList this) ''reset''
                        [LiteralArrayExpr (expandedValues rv (query_values this))]) # rest,
                      targetDynamicMethod)
            else Inr (targetStaticMethod,
                      targetDynamicMethod @
                        [IfStmt (ReadPropExpr (queryList this) ''dirty'')
                           (ExpressionStatement (InvokeMethodExpr (queryList this) ''reset''
                              [LiteralArrayExpr (expandedValues rv (query_values this))]) #
                            rest)])))"
  proof
    assume "viewsDeclared (query_values this)"
    then have q: "createQueryValues rv (query_values this) =
        Inr (expandedValues rv (query_values this))"
      by (rule createQueryValues_expanded(1))
    show "\<exists>rest.
         afterChildren rv this targetStaticMethod targetDynamicMethod =
           (if first (meta this) \<and> isStatic this
            then Inr (targetStaticMethod @
                      ExpressionStatement (InvokeMethodExpr (queryList this) ''reset''
                        [LiteralArrayExpr (expandedValues rv (query_values this))]) # rest,
                      targetDynamicMethod)
            else Inr (targetStaticMethod,
                      targetDynamicMethod @
                        [IfStmt (ReadPropExpr (queryList this) ''dirty'')
                           (ExpressionStatement (InvokeMethodExpr (queryList this) ''reset''
                              [LiteralArrayExpr (expandedValues rv (query_values this))]) #
                            rest)]))"
      by (simp add: afterChildren_def q updateStmts_def)
  qed
  from a w c show ?thesis by (intro conjI)
qed

text \<open>
  A query of the root view receives a value from the embedded view declared on the first
  element of the root view, and a value from the root view itself. From the embedded view
  the statement that marks the query list dirty is appended; from the root view nothing
  is. After the children the query list is reset, under the test of its dirty flag, to
  the call of \<^verbatim>\<open>mapNestedViews\<close> on the app element of that element.
\<close>

theorem addValue_dirty_and_nested_example:
  "addValue plainGetPropertyInView sampleQuery (ReadPropExpr THIS_EXPR ''_el_0'')
     embeddedViewRef [] =
     Inr (sampleQuery\<lparr>query_values := ViewQueryValues (Some rootViewRef)
            [NestedEntry (ViewQueryValues (Some embeddedViewRef)
               [ExprEntry (ReadPropExpr THIS_EXPR ''_el_0'')])]\<rparr>,
          [ExpressionStatement
             (InvokeMethodExpr
                (InvokeFunctionExpr (ExternalExpr ''getPropertyInView'')
                   [ReadPropExpr THIS_EXPR ''_viewQuery_Child_0'', LiteralExpr (LitNat 1),
                    LiteralExpr (LitNat 0)])
                ''setDirty'' [])]) \<and>
   addValue plainGetPropertyInView sampleQuery (ReadPropExpr THIS_EXPR ''_el_0'')
     rootViewRef [] =
     Inr (sampleQuery\<lparr>query_values := ViewQueryValues (Some rootViewRef)
            [ExprEntry (ReadPropExpr THIS_EXPR ''_el_0'')]\<rparr>, []) \<and>
   viewsDeclared (ViewQueryValues (Some rootViewRef)
     [NestedEntry (ViewQueryValues (Some embeddedViewRef)
        [ExprEntry (ReadPropExpr THIS_EXPR ''_el_0'')])]) \<and>
   afterChildren plainReplaceVar
     (sampleQuery\<lparr>query_values := ViewQueryValues (Some rootViewRef)
        [NestedEntry (ViewQueryValues (Some embeddedViewRef)
           [ExprEntry (ReadPropExpr THIS_EXPR ''_el_0'')])]\<rparr>) [] [] =
     Inr ([],
          [IfStmt (ReadPropExpr (ReadPropExpr THIS_EXPR ''_viewQuery_Child_0'') ''dirty'')
             [ExpressionStatement
                (InvokeMethodExpr (ReadPropExpr THIS_EXPR ''_viewQuery_Child_0'') ''reset''
                   [LiteralArrayExpr
                      [InvokeMethodExpr (ReadPropExpr THIS_EXPR ''_appEl_0'') ''mapNestedViews''
                         [ReadVarExpr ''_View_App1'',
                          FunctionExpr [''nestedView'']
                            [ReturnStatement (LiteralArrayExpr
                               [InvokeFunctionExpr (ExternalExpr ''replaceVarInExpression'')
                                  [LiteralExpr (LitString ''this''), ReadVarExpr ''nestedView'',
                                   ReadPropExpr THIS_EXPR ''_el_0'']])]]]]),
              ExpressionStatement
                (WritePropExpr (ReadPropExpr THIS_EXPR ''context'') ''child''
                   (ReadPropExpr (ReadPropExpr THIS_EXPR ''_viewQuery_Child_0'') ''first''))]])"
proof -
  let ?q = "sampleQuery\<lparr>query_values := ViewQueryValues (Some rootViewRef)
        [NestedEntry (ViewQueryValues (Some embeddedViewRef)
           [ExprEntry (ReadPropExpr THIS_EXPR ''_el_0'')])]\<rparr>"
  note t = addValue_dirty_and_nested [where gpiv = plainGetPropertyInView and this = sampleQuery
      and v = "ReadPropExpr THIS_EXPR ''_el_0''" and dirty = "[]"]
  have 1: "addValue plainGetPropertyInView sampleQuery (ReadPropExpr THIS_EXPR ''_el_0'')
     embeddedViewRef [] =
     Inr (sampleQuery\<lparr>query_values := ViewQueryValues (Some rootViewRef)
            [NestedEntry (ViewQueryValues (Some embeddedViewRef)
               [ExprEntry (ReadPropExpr THIS_EXPR ''_el_0'')])]\<rparr>,
          [ExpressionStatement
             (InvokeMethodExpr
                (InvokeFunctionExpr (ExternalExpr ''getPropertyInView'')
                   [ReadPropExpr THIS_EXPR ''_viewQuery_Child_0'', LiteralExpr (LitNat 1),
                    LiteralExpr (LitNat 0)])
                ''setDirty'' [])])"
    using t [where originView = embeddedViewRef, THEN conjunct1]
    by (simp add: plainGetPropertyInView_def sampleQuery_def embeddedViewRef_def rootViewRef_def)
  have 2: "addValue plainGetPropertyInView sampleQuery (ReadPropExpr THIS_EXPR ''_el_0'')
     rootViewRef [] =
     Inr (sampleQuery\<lparr>query_values := ViewQueryValues (Some rootViewRef)
            [ExprEntry (ReadPropExpr THIS_EXPR ''_el_0'')]\<rparr>, [])"
    using t [where originView = rootViewRef, THEN conjunct1]
    by (simp add: plainGetPropertyInView_def sampleQuery_def rootViewRef_def)
  have 3: "viewsDeclared (query_values ?q)"
    by (simp add: embeddedViewRef_def)
  from addValue_dirty_and_nested [where this = ?q and rv = plainReplaceVar
      and targetStaticMethod = "[]" and targetDynamicMethod = "[]", THEN conjunct2, THEN conjunct2]
    3
  obtain rest where "afterChildren plainReplaceVar ?q [] [] =
      (if first (meta ?q) \<and> isStatic ?q
       then Inr ([] @ ExpressionStatement (InvokeMethodExpr (queryList ?q) ''reset''
                        [LiteralArrayExpr (expandedValues plainReplaceVar (query_values ?q))]) #
                      rest, [])
       else Inr ([], [] @ [IfStmt (ReadPropExpr (queryList ?q) ''dirty'')
                           (ExpressionStatement (InvokeMethodExpr (queryList ?q) ''reset''
                              [LiteralArrayExpr
                                 (expandedValues plainReplaceVar (query_values ?q))]) # rest)]))"
    by blast
  moreover have "afterChildren plainReplaceVar ?q [] [] =
     Inr ([],
          [IfStmt (ReadPropExpr (ReadPropExpr THIS_EXPR ''_viewQuery_Child_0'') ''dirty'')
             [ExpressionStatement
                (InvokeMethodExpr (ReadPropExpr THIS_EXPR ''_viewQuery_Child_0'') ''reset''
                   [LiteralArrayExpr
                      [InvokeMethodExpr (ReadPropExpr THIS_EXPR ''_appEl_0'') ''mapNestedViews''
                         [ReadVarExpr ''_View_App1'',
                          FunctionExpr [''nestedView'']
                            [ReturnStatement (LiteralArrayExpr
                               [InvokeFunctionExpr (ExternalExpr ''replaceVarInExpression'')
                                  [LiteralExpr (LitString ''this''), ReadVarExpr ''nestedView'',
                                   ReadPropExpr THIS_EXPR ''_el_0'']])]]]]),
              ExpressionStatement
                (WritePropExpr (ReadPropExpr THIS_EXPR ''context'') ''child''
                   (ReadPropExpr (ReadPropExpr THIS_EXPR ''_viewQuery_Child_0'') ''first''))]])"
    by code_simp
  ultimately show ?thesis
    using 1 2 3 by simp
qed

end
